theory Spec2Isabelle
  imports Complex_Main
begin

section \<open>Tensors\<close>

text \<open>
  A dense tensor is its shape together with its elements in row-major order, which is
  how the numeric runtime stores it. Reshaping keeps the elements and replaces the shape.
\<close>

record 'a tensor =
  shape :: "nat list"
  flat :: "'a list"

datatype tf_error = InvalidArgumentError | KeyError | ValueError | TypeError | IndexError

definition tf_logical_not :: "bool tensor \<Rightarrow> bool tensor" where
  "tf_logical_not m = m\<lparr>flat := map Not (flat m)\<rparr>"

text \<open>\<open>t + c\<close> for a scalar \<open>c\<close>: the scalar is broadcast to every element.\<close>

definition tf_add_scalar :: "('a::plus) tensor \<Rightarrow> 'a \<Rightarrow> 'a tensor" where
  "tf_add_scalar t c = t\<lparr>flat := map (\<lambda>x. x + c) (flat t)\<rparr>"

section \<open>InvertMask (layers.py)\<close>

text \<open>
  \<^verbatim>\<open>
  def compute_mask(self, inputs, mask=None):
      if mask is None:
          return None
      return tf.logical_not(mask)

  def call(self, inputs):
      return inputs + 0
  \<close>
\<close>

definition InvertMask_compute_mask :: "'a tensor \<Rightarrow> bool tensor option \<Rightarrow> bool tensor option" where
  "InvertMask_compute_mask inputs mask_in =
     (case mask_in of None \<Rightarrow> None | Some m \<Rightarrow> Some (tf_logical_not m))"

definition InvertMask_call :: "('a::monoid_add) tensor \<Rightarrow> 'a tensor" where
  "InvertMask_call inputs = tf_add_scalar inputs 0"

section \<open>AttributableMultiHeadAttention: the per-head weights (layers.py)\<close>

text \<open>
  The layer's state, as far as attribution is concerned: the number of heads, the key
  dimension and the variable \<open>_alpha\<close>, one weight per head. Weights are 32-bit floats in
  the source; they are taken as real numbers here.
\<close>

record mha_layer =
  num_heads :: nat
  key_dim :: nat
  alpha :: "real list"

text \<open>
  \<^verbatim>\<open>
  def __init__(self, num_heads, key_dim, *args, **kwargs):
      ...
      self._alpha = tf.Variable([1.0]*num_heads, ...)
  \<close>
\<close>

definition mha_init :: "nat \<Rightarrow> nat \<Rightarrow> mha_layer" where
  "mha_init n k = \<lparr>num_heads = n, key_dim = k, alpha = replicate n 1\<rparr>"

text \<open>
  \<^verbatim>\<open>
  def reset_attention_attribution_weights(self):
      self._alpha.assign([1.0]*self._num_heads)
  \<close>
\<close>

definition reset_attention_attribution_weights :: "mha_layer \<Rightarrow> mha_layer" where
  "reset_attention_attribution_weights l = l\<lparr>alpha := replicate (num_heads l) 1\<rparr>"

text \<open>
  \<^verbatim>\<open>
  def set_attention_attribution_weight(self, head, alpha):
      self._alpha.scatter_nd_update([[head]], [alpha])
  \<close>
  The scatter update writes one entry. An index outside \<open>[0, len)\<close> is rejected by the
  runtime (on the CPU kernel), which is the error branch.
\<close>

definition set_attention_attribution_weight ::
    "mha_layer \<Rightarrow> int \<Rightarrow> real \<Rightarrow> tf_error + mha_layer" where
  "set_attention_attribution_weight l head a =
     (if 0 \<le> head \<and> head < int (length (alpha l))
      then Inr (l\<lparr>alpha := (alpha l)[nat head := a]\<rparr>)
      else Inl InvalidArgumentError)"

section \<open>AttributableMultiHeadAttention: the attention computation (layers.py)\<close>

text \<open>
  An attention score tensor has the axes (batch, heads, query, key); it is a list over
  the batch of lists over the heads of matrices.
\<close>

type_synonym scores = "real list list list list"

definition tf_multiply_scalar :: "real tensor \<Rightarrow> real \<Rightarrow> real tensor" where
  "tf_multiply_scalar t c = t\<lparr>flat := map (\<lambda>x. x * c) (flat t)\<rparr>"

text \<open>
  \<open>tf.multiply(tf.reshape(self._alpha, (1, -1, 1, 1)), attention_scores)\<close>: the weights
  are laid along the heads axis and broadcast over the other three, so every entry of
  head \<open>h\<close> is multiplied by \<open>alpha[h]\<close>. Along the heads axis the two operands must have
  the same size, or one of them size 1 (it is then repeated); any other pair of sizes is
  rejected by the runtime.
\<close>

definition scale_head :: "real \<Rightarrow> real list list \<Rightarrow> real list list" where
  "scale_head a m = map (map (\<lambda>x. a * x)) m"

definition multiply_heads :: "real list \<Rightarrow> real list list list \<Rightarrow> tf_error + real list list list" where
  "multiply_heads al heads =
     (if length al = length heads then Inr (map2 scale_head al heads)
      else if length al = 1 then Inr (map (scale_head (hd al)) heads)
      else if length heads = 1 then Inr (map (\<lambda>a. scale_head a (hd heads)) al)
      else Inl InvalidArgumentError)"

fun multiply_alpha :: "real list \<Rightarrow> scores \<Rightarrow> tf_error + scores" where
  "multiply_alpha al [] = Inr []"
| "multiply_alpha al (heads # rest) =
     (case multiply_heads al heads of
        Inl err \<Rightarrow> Inl err
      | Inr h \<Rightarrow> (case multiply_alpha al rest of Inl err \<Rightarrow> Inl err | Inr r \<Rightarrow> Inr (h # r)))"

text \<open>
  The layer inherits its einsum equations, its masked softmax and its dropout layer from
  the framework's multi-head attention class. They are arguments of the model; nothing is
  assumed about them.
\<close>

record ('k, 'v, 'm, 'o) mha_ops =
  einsum_dot_product :: "'k \<Rightarrow> real tensor \<Rightarrow> scores"
  masked_softmax :: "scores \<Rightarrow> 'm option \<Rightarrow> scores"
  dropout_layer :: "scores \<Rightarrow> bool option \<Rightarrow> scores"
  einsum_combine :: "scores \<Rightarrow> 'v \<Rightarrow> 'o"

text \<open>
  \<^verbatim>\<open>
  def _compute_attention(self, query, key, value, attention_mask=None, training=None):
      query = tf.multiply(query, 1.0 / np.sqrt(float(self._key_dim)))
      attention_scores = tf.einsum(self._dot_product_equation, key, query)
      attention_scores = self._masked_softmax(attention_scores, attention_mask)
      attention_scores = tf.multiply(tf.reshape(self._alpha, (1, -1, 1, 1)), attention_scores)
      attention_scores_dropout = self._dropout_layer(attention_scores, training=training)
      attention_output = tf.einsum(self._combine_equation, attention_scores_dropout, value)
      return attention_output, attention_scores
  \<close>
\<close>

definition compute_attention ::
    "('k, 'v, 'm, 'o) mha_ops \<Rightarrow> mha_layer \<Rightarrow> real tensor \<Rightarrow> 'k \<Rightarrow> 'v \<Rightarrow> 'm option \<Rightarrow> bool option
      \<Rightarrow> tf_error + 'o \<times> scores" where
  "compute_attention ops l query key val attention_mask training =
     (let query = tf_multiply_scalar query (1 / sqrt (real (key_dim l)));
          attention_scores = einsum_dot_product ops key query;
          attention_scores = masked_softmax ops attention_scores attention_mask
      in case multiply_alpha (alpha l) attention_scores of
           Inl err \<Rightarrow> Inl err
         | Inr attention_scores \<Rightarrow>
             (let attention_scores_dropout = dropout_layer ops attention_scores training;
                  attention_output = einsum_combine ops attention_scores_dropout val
              in Inr (attention_output, attention_scores)))"

text \<open>
  The specification's reference point, standard scaled dot-product multi-head attention:
  scale the query by \<open>1 / sqrt(key_dim)\<close>, take the dot product with the key, apply the
  masked softmax, apply dropout, combine with the value. There are no per-head weights.
\<close>

definition standard_compute_attention ::
    "('k, 'v, 'm, 'o) mha_ops \<Rightarrow> nat \<Rightarrow> real tensor \<Rightarrow> 'k \<Rightarrow> 'v \<Rightarrow> 'm option \<Rightarrow> bool option
      \<Rightarrow> 'o \<times> scores" where
  "standard_compute_attention ops kd query key val attention_mask training =
     (let query = tf_multiply_scalar query (1 / sqrt (real kd));
          attention_scores = einsum_dot_product ops key query;
          attention_scores = masked_softmax ops attention_scores attention_mask;
          attention_scores_dropout = dropout_layer ops attention_scores training;
          attention_output = einsum_combine ops attention_scores_dropout val
      in (attention_output, attention_scores))"

text \<open>A small instance of the inherited operations, with two heads.\<close>

definition toy_ops :: "(real tensor, real tensor, unit, scores) mha_ops" where
  "toy_ops = \<lparr>einsum_dot_product = (\<lambda>k q. [[[flat q], [flat k]]]),
              masked_softmax = (\<lambda>s m. s),
              dropout_layer = (\<lambda>s t. s),
              einsum_combine = (\<lambda>s v. s)\<rparr>"

section \<open>Candidate edges of a layer (attention_attribution.py, token_attribution)\<close>

text \<open>
  The attribution values are 32-bit floats in a NumPy array. For the thresholding what
  matters is how division and comparison treat the special values, so a float is one of:
  not-a-number, an infinity with its sign, a zero with its sign, or a finite number other
  than zero (\<open>True\<close> is the negative sign). Rounding a finite quotient to a float is left
  open as the argument \<open>rnd\<close>. NumPy's array division does not raise on a zero divisor: it
  warns and returns the IEEE result.
\<close>

datatype np_float = NaN | Inf bool | Zero bool | Fin real

fun negative :: "np_float \<Rightarrow> bool" where
  "negative NaN = False"
| "negative (Inf s) = s"
| "negative (Zero s) = s"
| "negative (Fin r) = (r < 0)"

text \<open>\<open>x / y\<close> on floats: \<open>0/0\<close> and \<open>inf/inf\<close> are not-a-number, \<open>x/0\<close> is an infinity.\<close>

fun np_divide :: "(real \<Rightarrow> np_float) \<Rightarrow> np_float \<Rightarrow> np_float \<Rightarrow> np_float" where
  "np_divide rnd NaN y = NaN"
| "np_divide rnd x NaN = NaN"
| "np_divide rnd (Zero s) (Zero t) = NaN"
| "np_divide rnd (Inf s) (Inf t) = NaN"
| "np_divide rnd x (Zero t) = Inf (negative x \<noteq> t)"
| "np_divide rnd (Inf s) y = Inf (s \<noteq> negative y)"
| "np_divide rnd (Zero s) y = Zero (s \<noteq> negative y)"
| "np_divide rnd (Fin r) (Inf t) = Zero ((r < 0) \<noteq> t)"
| "np_divide rnd (Fin r) (Fin q) = rnd (r / q)"

text \<open>\<open>x > y\<close> on floats: false whenever an operand is not-a-number; the two zeros are equal.\<close>

fun finite_value :: "np_float \<Rightarrow> real" where
  "finite_value (Fin r) = r"
| "finite_value _ = 0"

fun np_greater :: "np_float \<Rightarrow> np_float \<Rightarrow> bool" where
  "np_greater NaN y = False"
| "np_greater x NaN = False"
| "np_greater (Inf s) (Inf t) = (\<not> s \<and> t)"
| "np_greater (Inf s) y = (\<not> s)"
| "np_greater x (Inf t) = t"
| "np_greater x y = (finite_value y < finite_value x)"

text \<open>
  \<open>np.max\<close> of a matrix: not-a-number if any entry is; \<open>ValueError\<close> for a matrix
  without entries.
\<close>

definition np_maximum :: "np_float \<Rightarrow> np_float \<Rightarrow> np_float" where
  "np_maximum x y = (if x = NaN \<or> y = NaN then NaN else if np_greater y x then y else x)"

definition np_max :: "np_float list list \<Rightarrow> tf_error + np_float" where
  "np_max a = (case concat a of [] \<Rightarrow> Inl ValueError
               | x # xs \<Rightarrow> Inr (fold (\<lambda>y m. np_maximum m y) xs x))"

text \<open>\<open>np.argwhere\<close>: the index pairs of the true entries, row by row.\<close>

definition np_argwhere :: "bool list list \<Rightarrow> (nat \<times> nat) list" where
  "np_argwhere b =
     concat (map (\<lambda>(i, row). map (\<lambda>(j, c). (i, j)) (filter snd (enumerate 0 row)))
               (enumerate 0 b))"

text \<open>
  \<^verbatim>\<open>
  a_ij = attrs_by_layer[l]
  max_attr_l = np.max(attrs_by_layer[l])
  for (i, j) in np.argwhere(a_ij/max_attr_l > tau):
      i_universal = token_ids[token_names[i]]
      j_universal = token_ids[token_names[j]]
      edges.add((i_universal, j_universal))
  \<close>
  \<open>layer_quotients\<close> is the array \<open>a_ij/max_attr_l\<close>; \<open>universal\<close> maps a position of the
  record to its token identifier.
\<close>

definition layer_quotients :: "(real \<Rightarrow> np_float) \<Rightarrow> np_float list list \<Rightarrow> tf_error + np_float list list" where
  "layer_quotients rnd a_ij =
     (case np_max a_ij of
        Inl err \<Rightarrow> Inl err
      | Inr max_attr_l \<Rightarrow> Inr (map (map (\<lambda>x. np_divide rnd x max_attr_l)) a_ij))"

definition layer_edges ::
    "(real \<Rightarrow> np_float) \<Rightarrow> (nat \<Rightarrow> int) \<Rightarrow> np_float \<Rightarrow> np_float list list \<Rightarrow> tf_error + (int \<times> int) list" where
  "layer_edges rnd universal tau a_ij =
     (case layer_quotients rnd a_ij of
        Inl err \<Rightarrow> Inl err
      | Inr q \<Rightarrow>
          Inr (map (\<lambda>(i, j). (universal i, universal j))
                 (np_argwhere (map (map (\<lambda>x. np_greater x tau)) q))))"

definition is_zero :: "np_float \<Rightarrow> bool" where
  "is_zero x = (case x of Zero s \<Rightarrow> True | _ \<Rightarrow> False)"

section \<open>Attribution tree reconstruction (attention_attribution.py, token_attribution)\<close>

text \<open>
  The second half of \<open>token_attribution\<close> works on three values that its first half
  computes from the store: the number \<open>n\<close> of token identifiers (the identifiers are
  \<open>0, ..., n - 1\<close>), the identifier \<open>top_node\<close> of the token with the highest attribution,
  and \<open>edges_by_layer\<close>, one candidate edge set per layer. A Python set is iterated in
  an order the program does not choose, so each candidate set is a list here, in the
  order of iteration, and every statement below holds for every order.

  \<^verbatim>\<open>
  taus = [tau]*(pickle.loads(store["0_attr_shape"])[0] - 1) + [0.0]
  edges_by_layer = [set() for _ in range(len(taus))]
  \<close>
\<close>

datatype vstate = NotAppear | Appear | Fixed

record walk =
  state :: "int \<rightharpoonup> vstate"
  edges :: "(int \<times> int) set"
  vertices :: "int set"

definition taus :: "real \<Rightarrow> int \<Rightarrow> real list" where
  "taus tau num_layers = replicate (nat (num_layers - 1)) tau @ [0]"

text \<open>\<open>range(start, stop, -1)\<close>.\<close>

definition range_down :: "int \<Rightarrow> int \<Rightarrow> int list" where
  "range_down start stop = rev [stop + 1 .. start]"

text \<open>
  \<^verbatim>\<open>
  NotAppear, Appear, Fixed = "NotAppear", "Appear", "Fixed"
  state = {id: NotAppear for id in token_ids.values()}
  state[top_node] = Appear
  edges = set()
  vertices = set([top_node])
  for l in range(len(taus) - 2, -1, -1):
      for (i, j) in edges_by_layer[l]:
          if i == j:
              continue
          if state[i] is Appear and state[j] is NotAppear:
              edges.add((i, j))
              vertices.add(j)
              state[i] = Fixed
              state[j] = Appear
          if state[i] is Fixed and state[j] is NotAppear:
              edges.add((i, j))
              vertices.add(j)
              state[j] = Appear
  \<close>
  \<open>state[k]\<close> raises \<open>KeyError\<close> for a key that is not in the dictionary, and
  \<open>a and b\<close> does not evaluate \<open>b\<close> when \<open>a\<close> is false.
\<close>

definition state_is :: "(int \<rightharpoonup> vstate) \<Rightarrow> int \<Rightarrow> vstate \<Rightarrow> tf_error + bool" where
  "state_is st k v = (case st k of None \<Rightarrow> Inl KeyError | Some s \<Rightarrow> Inr (s = v))"

definition and_then :: "tf_error + bool \<Rightarrow> tf_error + bool \<Rightarrow> tf_error + bool" where
  "and_then a b = (case a of Inl e \<Rightarrow> Inl e | Inr c \<Rightarrow> if c then b else Inr False)"

definition walk_edge :: "int \<times> int \<Rightarrow> walk \<Rightarrow> tf_error + walk" where
  "walk_edge e w =
     (case e of (i, j) \<Rightarrow>
        if i = j then Inr w
        else
          (case and_then (state_is (state w) i Appear) (state_is (state w) j NotAppear) of
             Inl err \<Rightarrow> Inl err
           | Inr c1 \<Rightarrow>
               let w1 = (if c1
                         then w\<lparr>state := (state w)(i \<mapsto> Fixed, j \<mapsto> Appear),
                                edges := insert (i, j) (edges w),
                                vertices := insert j (vertices w)\<rparr>
                         else w)
               in (case and_then (state_is (state w1) i Fixed) (state_is (state w1) j NotAppear) of
                     Inl err \<Rightarrow> Inl err
                   | Inr c2 \<Rightarrow>
                       Inr (if c2
                            then w1\<lparr>state := (state w1)(j \<mapsto> Appear),
                                    edges := insert (i, j) (edges w1),
                                    vertices := insert j (vertices w1)\<rparr>
                            else w1))))"

fun walk_layer :: "(int \<times> int) list \<Rightarrow> walk \<Rightarrow> tf_error + walk" where
  "walk_layer [] w = Inr w"
| "walk_layer (e # es) w =
     (case walk_edge e w of Inl err \<Rightarrow> Inl err | Inr w' \<Rightarrow> walk_layer es w')"

definition walk_order :: "(int \<times> int) list list \<Rightarrow> int list" where
  "walk_order edges_by_layer = range_down (int (length edges_by_layer) - 2) (- 1)"

fun walk_layers :: "(int \<times> int) list list \<Rightarrow> int list \<Rightarrow> walk \<Rightarrow> tf_error + walk" where
  "walk_layers edges_by_layer [] w = Inr w"
| "walk_layers edges_by_layer (l # ls) w =
     (case walk_layer (edges_by_layer ! nat l) w of
        Inl err \<Rightarrow> Inl err
      | Inr w' \<Rightarrow> walk_layers edges_by_layer ls w')"

definition walk_init :: "nat \<Rightarrow> int \<Rightarrow> walk" where
  "walk_init n top_node =
     \<lparr>state = (\<lambda>k. if 0 \<le> k \<and> k < int n then Some NotAppear else None)(top_node \<mapsto> Appear),
      edges = {},
      vertices = {top_node}\<rparr>"

text \<open>
  \<^verbatim>\<open>
  vertices.add(-1)
  for j in range(len(state) - 1, -1, -1):
      if state[j] in (Appear, Fixed):
          edges.add((-1, j))
  ...
  return { ..., "edges": edges, "vertices": vertices }
  \<close>
\<close>

fun inject_class_token :: "(int \<rightharpoonup> vstate) \<Rightarrow> int list \<Rightarrow> (int \<times> int) set
    \<Rightarrow> tf_error + (int \<times> int) set" where
  "inject_class_token st [] es = Inr es"
| "inject_class_token st (j # js) es =
     (case st j of
        None \<Rightarrow> Inl KeyError
      | Some s \<Rightarrow> inject_class_token st js (if s = Appear \<or> s = Fixed then insert (- 1, j) es else es))"

definition add_class_token :: "walk \<Rightarrow> tf_error + (int \<times> int) set \<times> int set" where
  "add_class_token w =
     (case inject_class_token (state w)
             (range_down (int (card (dom (state w))) - 1) (- 1)) (edges w) of
        Inl err \<Rightarrow> Inl err
      | Inr es \<Rightarrow> Inr (es, insert (- 1) (vertices w)))"

definition tree_reconstruction ::
    "nat \<Rightarrow> int \<Rightarrow> (int \<times> int) list list \<Rightarrow> tf_error + (int \<times> int) set \<times> int set" where
  "tree_reconstruction n top_node edges_by_layer =
     (case walk_layers edges_by_layer (walk_order edges_by_layer) (walk_init n top_node) of
        Inl err \<Rightarrow> Inl err
      | Inr w \<Rightarrow> add_class_token w)"

text \<open>
  The candidate edges that the first half builds join token identifiers only:
  both ends of every candidate edge are in \<open>0, ..., n - 1\<close>.
\<close>

definition edges_in_range :: "nat \<Rightarrow> (int \<times> int) list list \<Rightarrow> bool" where
  "edges_in_range n edges_by_layer \<longleftrightarrow>
     list_all (list_all (\<lambda>(i, j). 0 \<le> i \<and> i < int n \<and> 0 \<le> j \<and> j < int n)) edges_by_layer"

text \<open>The sources of the edges that end in \<open>v\<close>.\<close>

definition incoming :: "(int \<times> int) set \<Rightarrow> int \<Rightarrow> int set" where
  "incoming E v = {i. (i, v) \<in> E}"

text \<open>
  What the walk maintains: the dictionary has the keys \<open>0, ..., n - 1\<close>; the vertices are
  the tokens that have appeared; every edge joins vertices and does not end in the top
  node; every vertex but the top node has one incoming edge; every vertex is reached
  from the top node; there is no cycle.
\<close>

definition walk_inv :: "nat \<Rightarrow> int \<Rightarrow> walk \<Rightarrow> bool" where
  "walk_inv n top_node w \<longleftrightarrow>
     dom (state w) = {0..<int n}
     \<and> vertices w = {v. state w v = Some Appear \<or> state w v = Some Fixed}
     \<and> top_node \<in> vertices w
     \<and> (\<forall>(i, j) \<in> edges w. i \<in> vertices w \<and> j \<in> vertices w \<and> j \<noteq> top_node)
     \<and> (\<forall>v \<in> vertices w. v \<noteq> top_node \<longrightarrow> (\<exists>!i. (i, v) \<in> edges w))
     \<and> (\<forall>v \<in> vertices w. (top_node, v) \<in> (edges w)\<^sup>*)
     \<and> acyclic (edges w)"

section \<open>Reading the attribution store (attention_attribution.py, token_attribution)\<close>

text \<open>
  The store maps the keys \<open>"length"\<close>, \<open>"<n>_x"\<close>, \<open>"<n>_metadata"\<close>, \<open>"<n>_attr_shape"\<close> and
  \<open>"<n>_attrs"\<close> to byte strings. A key is written as its kind and its record number
  instead of the formatted string. \<open>store[k]\<close> raises \<open>KeyError\<close> for a key that is not
  there.
\<close>

datatype store_key = Length_key | X_key nat | Metadata_key nat | Attr_shape_key nat | Attrs_key nat

type_synonym store = "store_key \<rightharpoonup> nat list"

definition store_get :: "store \<Rightarrow> store_key \<Rightarrow> tf_error + nat list" where
  "store_get st k = (case st k of None \<Rightarrow> Inl KeyError | Some v \<Rightarrow> Inr v)"

text \<open>
  \<^verbatim>\<open>
  length = store["length"] if "length" in store else len(store)//4
  \<close>
  The value is either the stored byte string or the derived count. It is used as
  \<open>range(length)\<close>, which raises \<open>TypeError\<close> for a byte string.
\<close>

definition store_length :: "store \<Rightarrow> nat list + nat" where
  "store_length st =
     (if Length_key \<in> dom st then Inl (the (st Length_key)) else Inr (card (dom st) div 4))"

definition py_range :: "nat list + nat \<Rightarrow> tf_error + nat list" where
  "py_range len = (case len of Inl b \<Rightarrow> Inl TypeError | Inr n \<Rightarrow> Inr [0..<n])"

text \<open>
  \<open>pickle.loads\<close> is a library function; it is an argument of the model, named \<open>loads\<close>.
  The objects that matter here are an integer, a list of strings and a tuple of
  integers. A token name is what iterating over the unpickled metadata yields.
\<close>

datatype pyobj = PyInt int | PyStrList "string list" | PyIntTuple "int list"

datatype token_name = Name string | Number int

definition py_iter :: "pyobj \<Rightarrow> tf_error + token_name list" where
  "py_iter obj =
     (case obj of
        PyInt k \<Rightarrow> Inl TypeError
      | PyStrList xs \<Rightarrow> Inr (map Name xs)
      | PyIntTuple ks \<Rightarrow> Inr (map Number ks))"

text \<open>
  \<^verbatim>\<open>
  token_ids = {}
  for n in range(length):
      token_names = metadata_key(pickle.loads(store[f"{n}_metadata"]))
      for token_name in token_names:
          if token_name not in token_ids:
              token_ids[token_name] = len(token_ids)
  \<close>
  with \<open>metadata_key\<close> at its default, the identity.
\<close>

definition read_token_names ::
    "(nat list \<Rightarrow> tf_error + pyobj) \<Rightarrow> store \<Rightarrow> nat \<Rightarrow> tf_error + token_name list" where
  "read_token_names loads st n =
     (case store_get st (Metadata_key n) of
        Inl err \<Rightarrow> Inl err
      | Inr b \<Rightarrow> (case loads b of Inl err \<Rightarrow> Inl err | Inr obj \<Rightarrow> py_iter obj))"

fun assign_ids :: "token_name list \<Rightarrow> (token_name \<rightharpoonup> nat) \<Rightarrow> (token_name \<rightharpoonup> nat)" where
  "assign_ids [] ids = ids"
| "assign_ids (name # names) ids =
     assign_ids names (if name \<in> dom ids then ids else ids(name \<mapsto> card (dom ids)))"

fun for_range :: "(nat \<Rightarrow> tf_error + 'a) \<Rightarrow> nat list \<Rightarrow> tf_error + 'a list" where
  "for_range body [] = Inr []"
| "for_range body (n # ns) =
     (case body n of
        Inl err \<Rightarrow> Inl err
      | Inr x \<Rightarrow> (case for_range body ns of Inl err \<Rightarrow> Inl err | Inr xs \<Rightarrow> Inr (x # xs)))"

text \<open>
  \<^verbatim>\<open>
  taus = [tau]*(pickle.loads(store["0_attr_shape"])[0] - 1) + [0.0]
  \<close>
  Indexing an empty sequence raises \<open>IndexError\<close>; an integer cannot be indexed, and a
  string minus 1 is a \<open>TypeError\<close>.
\<close>

definition first_entry :: "pyobj \<Rightarrow> tf_error + int" where
  "first_entry obj =
     (case obj of
        PyInt k \<Rightarrow> Inl TypeError
      | PyStrList xs \<Rightarrow> (if xs = [] then Inl IndexError else Inl TypeError)
      | PyIntTuple ks \<Rightarrow> (case ks of [] \<Rightarrow> Inl IndexError | k # _ \<Rightarrow> Inr k))"

definition read_taus ::
    "(nat list \<Rightarrow> tf_error + pyobj) \<Rightarrow> real \<Rightarrow> store \<Rightarrow> tf_error + real list" where
  "read_taus loads tau st =
     (case store_get st (Attr_shape_key 0) of
        Inl err \<Rightarrow> Inl err
      | Inr b \<Rightarrow>
          (case loads b of
             Inl err \<Rightarrow> Inl err
           | Inr obj \<Rightarrow> (case first_entry obj of Inl err \<Rightarrow> Inl err | Inr k \<Rightarrow> Inr (taus tau k))))"

text \<open>
  \<open>np.frombuffer(b, dtype=np.float32)\<close> needs a buffer of a multiple of 4 bytes and
  reads one float from every 4 bytes; how 4 bytes give a float is the argument
  \<open>decode\<close>. \<open>a.reshape(shape)\<close> needs a shape with as many elements as \<open>a\<close>; one size
  may be \<open>-1\<close> and is then inferred; an integer is a shape of one size.
\<close>

fun groups4 :: "nat list \<Rightarrow> nat list list" where
  "groups4 (a # b # c # d # rest) = [a, b, c, d] # groups4 rest"
| "groups4 _ = []"

definition np_frombuffer :: "(nat list \<Rightarrow> np_float) \<Rightarrow> nat list \<Rightarrow> tf_error + np_float list" where
  "np_frombuffer decode b =
     (if length b mod 4 \<noteq> 0 then Inl ValueError else Inr (map decode (groups4 b)))"

definition reshape_sizes :: "'a list \<Rightarrow> int list \<Rightarrow> tf_error + 'a tensor" where
  "reshape_sizes xs ks =
     (if list_all (\<lambda>k. 0 \<le> k) ks
      then (if prod_list ks = int (length xs) then Inr \<lparr>shape = map nat ks, flat = xs\<rparr>
            else Inl ValueError)
      else if count_list ks (- 1) = 1 \<and> list_all (\<lambda>k. - 1 \<le> k) ks
      then (let p = prod_list (filter (\<lambda>k. k \<noteq> - 1) ks)
            in if p \<noteq> 0 \<and> int (length xs) mod p = 0
               then Inr \<lparr>shape = map (\<lambda>k. if k = - 1 then nat (int (length xs) div p) else nat k) ks,
                         flat = xs\<rparr>
               else Inl ValueError)
      else Inl ValueError)"

definition np_reshape :: "'a list \<Rightarrow> pyobj \<Rightarrow> tf_error + 'a tensor" where
  "np_reshape xs obj =
     (case obj of
        PyInt k \<Rightarrow> reshape_sizes xs [k]
      | PyStrList names \<Rightarrow> Inl TypeError
      | PyIntTuple ks \<Rightarrow> reshape_sizes xs ks)"

text \<open>
  \<^verbatim>\<open>
  for n in trange(length, leave=False):
      ...
      shape = pickle.loads(store[f"{n}_attr_shape"])
      token_names = metadata_key(pickle.loads(store[f"{n}_metadata"]))
      attrs = np.frombuffer(store[f"{n}_attrs"], dtype=np.float32).reshape(shape)
      ...
  \<close>
\<close>

definition read_record ::
    "(nat list \<Rightarrow> np_float) \<Rightarrow> (nat list \<Rightarrow> tf_error + pyobj) \<Rightarrow> store \<Rightarrow> nat
      \<Rightarrow> tf_error + token_name list \<times> np_float tensor" where
  "read_record decode loads st n =
     (case store_get st (Attr_shape_key n) of
        Inl err \<Rightarrow> Inl err
      | Inr sb \<Rightarrow>
          (case loads sb of
             Inl err \<Rightarrow> Inl err
           | Inr shp \<Rightarrow>
               (case read_token_names loads st n of
                  Inl err \<Rightarrow> Inl err
                | Inr token_names \<Rightarrow>
                    (case store_get st (Attrs_key n) of
                       Inl err \<Rightarrow> Inl err
                     | Inr ab \<Rightarrow>
                         (case np_frombuffer decode ab of
                            Inl err \<Rightarrow> Inl err
                          | Inr xs \<Rightarrow>
                              (case np_reshape xs shp of
                                 Inl err \<Rightarrow> Inl err
                               | Inr attrs \<Rightarrow> Inr (token_names, attrs)))))))"

text \<open>
  The rest of the body of the second loop (lines 110 to 133: the sums, the running
  totals, the top node, the candidate edges) works on the decoded record and on what
  the loop has accumulated; the part after the loop (lines 136 to 173) builds the tree
  from what was accumulated. Here they are the arguments \<open>process\<close> and \<open>finish\<close>, with
  \<open>start\<close> for the empty accumulators (one edge set per entry of \<open>taus\<close>); either may fail. The loop reads record \<open>n\<close>,
  processes it, and only then reads record \<open>n + 1\<close>.
\<close>

fun record_loop ::
    "(nat \<Rightarrow> tf_error + 'r) \<Rightarrow> ('r \<Rightarrow> 's \<Rightarrow> tf_error + 's) \<Rightarrow> nat list \<Rightarrow> 's \<Rightarrow> tf_error + 's" where
  "record_loop read process [] s = Inr s"
| "record_loop read process (n # ns) s =
     (case read n of
        Inl err \<Rightarrow> Inl err
      | Inr r \<Rightarrow>
          (case process r s of
             Inl err \<Rightarrow> Inl err
           | Inr s' \<Rightarrow> record_loop read process ns s'))"

definition token_attribution ::
    "((token_name \<rightharpoonup> nat) \<Rightarrow> real list \<Rightarrow> token_name list \<times> np_float tensor \<Rightarrow> 's \<Rightarrow> tf_error + 's)
      \<Rightarrow> ((token_name \<rightharpoonup> nat) \<Rightarrow> 's \<Rightarrow> tf_error + 'res) \<Rightarrow> (real list \<Rightarrow> 's)
      \<Rightarrow> (nat list \<Rightarrow> np_float) \<Rightarrow> (nat list \<Rightarrow> tf_error + pyobj) \<Rightarrow> real \<Rightarrow> store
      \<Rightarrow> tf_error + 'res" where
  "token_attribution process finish start decode loads tau st =
     (case py_range (store_length st) of
        Inl err \<Rightarrow> Inl err
      | Inr ns \<Rightarrow>
          (case for_range (read_token_names loads st) ns of
             Inl err \<Rightarrow> Inl err
           | Inr names \<Rightarrow>
               (let token_ids = fold assign_ids names Map.empty
                in case read_taus loads tau st of
                     Inl err \<Rightarrow> Inl err
                   | Inr ts \<Rightarrow>
                       (case record_loop (read_record decode loads st) (process token_ids ts) ns (start ts) of
                          Inl err \<Rightarrow> Inl err
                        | Inr s \<Rightarrow> finish token_ids s))))"

text \<open>
  Processing a list of decoded records in order, with no store involved.
\<close>

fun process_all :: "('r \<Rightarrow> 's \<Rightarrow> tf_error + 's) \<Rightarrow> 'r list \<Rightarrow> 's \<Rightarrow> tf_error + 's" where
  "process_all process [] s = Inr s"
| "process_all process (r # rs) s =
     (case process r s of Inl err \<Rightarrow> Inl err | Inr s' \<Rightarrow> process_all process rs s')"

text \<open>The keys of a store that holds the records \<open>0, ..., k - 1\<close>, four keys each.\<close>

definition record_keys :: "nat \<Rightarrow> store_key set" where
  "record_keys k = (\<Union>n \<in> {0..<k}. {X_key n, Metadata_key n, Attr_shape_key n, Attrs_key n})"

text \<open>
  A small instance: an unpickler that knows two byte strings, a decoder, and a
  processing that counts the records it is given. The store holds one record of shape
  \<open>(2, 1, 3, 3)\<close> with two token names and 72 bytes of attributions; a second store holds
  the same record with a buffer of 2 bytes.
\<close>

definition toy_loads :: "nat list \<Rightarrow> tf_error + pyobj" where
  "toy_loads b =
     (if b = [0] then Inr (PyStrList [''a'', ''b''])
      else if b = [1] then Inr (PyIntTuple [2, 1, 3, 3])
      else Inl ValueError)"

definition toy_decode :: "nat list \<Rightarrow> np_float" where
  "toy_decode b = (if b = [0, 0, 128, 63] then Fin 1 else Zero False)"

definition count_record ::
    "(token_name \<rightharpoonup> nat) \<Rightarrow> real list \<Rightarrow> token_name list \<times> np_float tensor \<Rightarrow> nat \<Rightarrow> tf_error + nat" where
  "count_record ids ts r s = Inr (Suc s)"

definition no_records :: "real list \<Rightarrow> nat" where
  "no_records ts = 0"

definition return_count :: "(token_name \<rightharpoonup> nat) \<Rightarrow> nat \<Rightarrow> tf_error + nat" where
  "return_count ids s = Inr s"

definition one_record_store :: store where
  "one_record_store =
     [X_key 0 \<mapsto> [7],
      Metadata_key 0 \<mapsto> [0],
      Attr_shape_key 0 \<mapsto> [1],
      Attrs_key 0 \<mapsto> concat (replicate 18 [0, 0, 128, 63])]"

definition short_buffer_store :: store where
  "short_buffer_store =
     [X_key 0 \<mapsto> [7],
      Metadata_key 0 \<mapsto> [0],
      Attr_shape_key 0 \<mapsto> [1],
      Attrs_key 0 \<mapsto> [0, 0]]"

section \<open>32-bit floats\<close>

text \<open>
  The runtime computes with IEEE binary32 numbers and rounds every result to the nearest
  one, ties to the even mantissa. A real number \<open>x\<close> other than 0 lies in the binade
  \<open>2^k \<le> |x| < 2^(k+1)\<close> with \<open>k = floor(log2 |x|)\<close>; there the binary32 numbers are the
  multiples of \<open>2^(k-23)\<close>, and of \<open>2^(-149)\<close> below the normal range. Overflow to
  infinity (magnitudes from \<open>2^128\<close> on) is not modelled; the values below stay under
  \<open>2^24\<close>.
\<close>

definition pow2 :: "int \<Rightarrow> real" where
  "pow2 e = (if 0 \<le> e then 2 ^ nat e else 1 / 2 ^ nat (- e))"

definition round_half_even :: "real \<Rightarrow> int" where
  "round_half_even q =
     (let f = \<lfloor>q\<rfloor>; d = q - of_int f
      in if d < 1/2 then f else if 1/2 < d then f + 1 else if even f then f else f + 1)"

definition float32 :: "real \<Rightarrow> real" where
  "float32 x =
     (if x = 0 then 0
      else let e = max (\<lfloor>log 2 \<bar>x\<bar>\<rfloor> - 23) (- 149)
           in of_int (round_half_even (x / pow2 e)) * pow2 e)"

text \<open>
  \<open>tf.Variable(v, dtype=tf.float32)\<close> stores the binary32 number nearest to the Python
  float \<open>v\<close>.
\<close>

definition tf_variable_float32 :: "real \<Rightarrow> real" where
  "tf_variable_float32 v = float32 v"

section \<open>Masking layers (layers.py)\<close>

text \<open>
  A batch of token sequences is a list of rows. A float is the real number it stands
  for, and every float operation rounds its result to a 32-bit float. A random draw is an
  argument of the model: the statements hold for every value the sampler can return.
\<close>

text \<open>
  Modelled from the spec: \<open>tfcast\<close> is imported from the module \<open>utils\<close>, which is not
  among the source files; the spec describes it as a thin numeric coercion helper, that
  is the runtime's \<open>cast\<close>. A cast from float to integer drops the fractional part; a
  cast from integer to float rounds to a 32-bit float; a cast from boolean gives 1 for
  true and 0 for false.
\<close>

definition tfcast_float_to_int :: "real \<Rightarrow> int" where
  "tfcast_float_to_int x = (if 0 \<le> x then \<lfloor>x\<rfloor> else \<lceil>x\<rceil>)"

definition tfcast_int_to_float :: "int \<Rightarrow> real" where
  "tfcast_int_to_float n = float32 (real_of_int n)"

definition tfcast_bool_to_int :: "bool \<Rightarrow> int" where
  "tfcast_bool_to_int b = (if b then 1 else 0)"

text \<open>
  \<open>tf.sequence_mask(lengths, maxlen)\<close>: row \<open>b\<close> is true at the positions
  \<open>j < lengths[b]\<close>, for \<open>j\<close> from 0 to \<open>maxlen - 1\<close>.
\<close>

definition tf_sequence_mask :: "int list \<Rightarrow> nat \<Rightarrow> bool list list" where
  "tf_sequence_mask lengths maxlen = map (\<lambda>l. map (\<lambda>j. int j < l) [0..<maxlen]) lengths"


text \<open>
  \<^verbatim>\<open>
  def call(self, inputs):
      batch_size = tf.shape(inputs)[0]
      seq_len = tf.shape(inputs)[1]
      mask_len = tfcast(tfcast(seq_len, dtype=tf.float32) * self.mask_ratio, dtype=tf.int32)
      mask_offsets = tf.random.uniform(
          (batch_size,), minval=0, maxval=(seq_len - mask_len + 1), dtype=tf.int32)
      left = tf.sequence_mask(mask_offsets, seq_len)
      right = tf.logical_not(tf.sequence_mask(mask_offsets + mask_len, seq_len))
      mask = tfcast(tf.logical_or(left, right), dtype=inputs.dtype)
      return tf.multiply(mask, inputs)
  \<close>
  The argument \<open>mask_offsets\<close> is the vector the sampler returns: one offset per row,
  each at least 0 and below \<open>seq_len - mask_len + 1\<close>. The argument \<open>mask_ratio\<close> is the
  value of the layer's variable, which the constructor sets:
  \<^verbatim>\<open>
  self.mask_ratio = tf.Variable(mask_ratio, trainable=False, dtype=tf.float32, ...)
  \<close>
\<close>

definition ContiguousMask_init :: "real \<Rightarrow> real" where
  "ContiguousMask_init mask_ratio = tf_variable_float32 mask_ratio"

definition ContiguousMask_mask_len :: "real \<Rightarrow> nat \<Rightarrow> int" where
  "ContiguousMask_mask_len mask_ratio seq_len =
     tfcast_float_to_int (float32 (tfcast_int_to_float (int seq_len) * mask_ratio))"


subsection \<open>TrimAndContiguousMask\<close>

text \<open>
  The four random vectors of one call: the trimmed lengths (integers from \<open>min_len\<close>
  to \<open>max_len\<close>) and the three vectors of uniform draws from \<open>[0, 1)\<close>, in the order in
  which \<open>call\<close> draws them.
\<close>

record draws =
  lengths :: "int list"
  u_offsets :: "real list"
  u_mask_lengths :: "real list"
  u_mask_offsets :: "real list"

text \<open>\<open>tf.sequence_mask(lengths)\<close> without \<open>maxlen\<close>: the largest length is taken.\<close>

definition tf_sequence_mask_auto :: "int list \<Rightarrow> bool list list" where
  "tf_sequence_mask_auto ls = tf_sequence_mask ls (nat (fold max ls 0))"

text \<open>
  The runtime's \<open>+\<close> needs two operands of one numeric dtype. A boolean tensor plus an
  int32 tensor is rejected, whatever the shapes and values.
\<close>

definition tf_add_bool_int32 :: "bool list list \<Rightarrow> int list \<Rightarrow> tf_error + bool list list" where
  "tf_add_bool_int32 x y = Inl InvalidArgumentError"

text \<open>
  \<^verbatim>\<open>
  lengths = tf.random.uniform((batch_size,), minval=self.min_len, maxval=self.max_len + 1,
      dtype=tf.int32)
  max_offsets = tfcast(tf.fill((batch_size,), self.max_len) - lengths, tf.float32)
  offsets = tfcast(tf.random.uniform((batch_size,)) * (max_offsets + 1.0), tf.int32)
  left = tf.logical_not(tf.sequence_mask(offsets, self.max_len))
  right = tf.sequence_mask(offsets + lengths, self.max_len)
  trim_mask = tf.logical_and(left, right)
  mask_lengths = tfcast(
      tf.math.ceil(
          tf.random.uniform((batch_size,)) * tfcast(lengths, tf.float32) * self.mask_ratio),
      tf.int32)
  max_mask_offsets = tfcast(lengths - mask_lengths, dtype=tf.float32)
  mask_offsets = tfcast(
      tf.random.uniform((batch_size,)) * tfcast(max_mask_offsets + 1.0, tf.float32), tf.int32)
  \<close>
\<close>

definition trim_offsets :: "nat \<Rightarrow> draws \<Rightarrow> int list" where
  "trim_offsets max_len d =
     map2 (\<lambda>u l. tfcast_float_to_int
                    (float32 (u * float32 (tfcast_int_to_float (int max_len - l) + 1))))
       (u_offsets d) (lengths d)"

definition trim_mask :: "nat \<Rightarrow> draws \<Rightarrow> bool list list" where
  "trim_mask max_len d =
     (let offsets = trim_offsets max_len d;
          left = map (map Not) (tf_sequence_mask offsets max_len);
          right = tf_sequence_mask (map2 (+) offsets (lengths d)) max_len
      in map2 (map2 (\<and>)) left right)"

definition mask_lengths :: "real \<Rightarrow> draws \<Rightarrow> int list" where
  "mask_lengths mask_ratio d =
     map2 (\<lambda>u l. tfcast_float_to_int
                    (real_of_int \<lceil>float32 (float32 (u * tfcast_int_to_float l) * mask_ratio)\<rceil>))
       (u_mask_lengths d) (lengths d)"

definition mask_offsets :: "real \<Rightarrow> draws \<Rightarrow> int list" where
  "mask_offsets mask_ratio d =
     map2 (\<lambda>u mx. tfcast_float_to_int (float32 (u * float32 (mx + 1))))
       (u_mask_offsets d)
       (map2 (\<lambda>l ml. tfcast_int_to_float (l - ml)) (lengths d) (mask_lengths mask_ratio d))"

text \<open>
  \<^verbatim>\<open>
  left = tf.sequence_mask(offsets + mask_offsets, self.max_len)
  right = tf.logical_not(
      tf.sequence_mask(offsets + mask_offsets) + mask_lengths, self.max_len)
  mask_mask = tf.logical_or(left, right)
  total_mask = tfcast(tf.logical_and(trim_mask, mask_mask), dtype=tf.int32)
  result = total_mask * inputs
  pad_tokens = tf.ones_like(inputs) * tfcast(tf.logical_not(trim_mask), dtype=tf.int32)
  result += pad_tokens
  return result
  \<close>
  In \<open>right\<close> the parenthesis of \<open>tf.sequence_mask\<close> closes before \<open>+ mask_lengths\<close>: the
  boolean mask itself is added to the int32 vector \<open>mask_lengths\<close>.
\<close>

text \<open>
  The layer's ratio is a variable too:
  \<open>self.mask_ratio = tf.Variable(mask_ratio, trainable=False, dtype=tf.float32, ...)\<close>.
\<close>

definition TrimAndContiguousMask_init :: "real \<Rightarrow> real" where
  "TrimAndContiguousMask_init mask_ratio = tf_variable_float32 mask_ratio"

definition TrimAndContiguousMask_call ::
    "nat \<Rightarrow> real \<Rightarrow> draws \<Rightarrow> int list list \<Rightarrow> tf_error + int list list" where
  "TrimAndContiguousMask_call max_len mask_ratio d inputs =
     (let offsets = trim_offsets max_len d;
          trim = trim_mask max_len d;
          starts = map2 (+) offsets (mask_offsets mask_ratio d);
          left = tf_sequence_mask starts max_len
      in case tf_add_bool_int32 (tf_sequence_mask_auto starts) (mask_lengths mask_ratio d) of
           Inl err \<Rightarrow> Inl err
         | Inr s \<Rightarrow>
             (let right = map (map Not) s;
                  mask_mask = map2 (map2 (\<or>)) left right;
                  total_mask = map (map tfcast_bool_to_int) (map2 (map2 (\<and>)) trim mask_mask);
                  result = map2 (map2 (*)) total_mask inputs;
                  pad_tokens = map2 (map2 (*)) (map (map (\<lambda>_. 1)) inputs)
                                 (map (map (\<lambda>b. tfcast_bool_to_int (\<not> b))) trim)
              in Inr (map2 (map2 (+)) result pad_tokens)))"

section \<open>ChunkedEmbeddingLayer (layers.py)\<close>

text \<open>
  A slice bound of Python and of the runtime alike: a negative bound counts from the
  end, and a bound past either end is clamped. \<open>xs[:hi]\<close> and \<open>xs[lo:]\<close> on a list.
\<close>

definition slice_bound :: "nat \<Rightarrow> int \<Rightarrow> nat" where
  "slice_bound n i = (if i < 0 then nat (int n + i) else min n (nat i))"

definition py_slice_to :: "'a list \<Rightarrow> int \<Rightarrow> 'a list" where
  "py_slice_to xs hi = take (slice_bound (length xs) hi) xs"

definition py_slice_from :: "'a list \<Rightarrow> int \<Rightarrow> 'a list" where
  "py_slice_from xs lo = drop (slice_bound (length xs) lo) xs"

text \<open>
  A tensor has as many elements as its shape says (the product of its sizes).
\<close>

definition well_formed :: "'a tensor \<Rightarrow> bool" where
  "well_formed t \<longleftrightarrow> length (flat t) = prod_list (shape t)"

text \<open>
  \<open>tf.reshape(t, [-1] + rest)\<close>: the leading size is inferred. When no size in \<open>rest\<close> is
  0, it is the number of elements divided by the product of \<open>rest\<close>, which must divide
  it. When \<open>rest\<close> has a size 0, the runtime leaves the zero sizes out on both sides: the
  leading size is the product of the non-zero sizes of \<open>t\<close> divided by the product of the
  non-zero sizes of \<open>rest\<close>, and \<open>t\<close> must itself be empty. \<open>tf.reshape(t, dims)\<close> with all
  sizes given fails when the number of elements differs.
\<close>

definition tf_reshape_infer :: "'a tensor \<Rightarrow> nat list \<Rightarrow> tf_error + 'a tensor" where
  "tf_reshape_infer t rest =
     (if 0 \<in> set rest
      then (if 0 \<in> set (shape t)
            then Inr \<lparr>shape = (prod_list (filter (\<lambda>d. d \<noteq> 0) (shape t))
                                div prod_list (filter (\<lambda>d. d \<noteq> 0) rest)) # rest,
                      flat = flat t\<rparr>
            else Inl InvalidArgumentError)
      else (let n = length (flat t); p = prod_list rest
            in if n mod p \<noteq> 0 then Inl InvalidArgumentError
               else Inr \<lparr>shape = (n div p) # rest, flat = flat t\<rparr>))"

definition tf_reshape :: "'a tensor \<Rightarrow> nat list \<Rightarrow> tf_error + 'a tensor" where
  "tf_reshape t dims =
     (if prod_list dims = length (flat t) then Inr \<lparr>shape = dims, flat = flat t\<rparr>
      else Inl InvalidArgumentError)"

text \<open>
  \<open>tf.shape(t)[0]\<close>; \<open>t[lo:hi]\<close>, a slice along the leading axis, which keeps whole
  rows; \<open>tf.concat((a, b), axis=0)\<close>, which needs equal shapes after the leading axis.
\<close>

definition leading_dim :: "'a tensor \<Rightarrow> nat" where
  "leading_dim t = (case shape t of [] \<Rightarrow> 0 | n # rest \<Rightarrow> n)"

definition tf_slice0 :: "'a tensor \<Rightarrow> int \<Rightarrow> int \<Rightarrow> tf_error + 'a tensor" where
  "tf_slice0 t lo hi =
     (case shape t of
        [] \<Rightarrow> Inl InvalidArgumentError
      | n # rest \<Rightarrow>
          (let a = slice_bound n lo; b = slice_bound n hi; r = prod_list rest
           in Inr \<lparr>shape = (b - a) # rest, flat = take ((b - a) * r) (drop (a * r) (flat t))\<rparr>))"

definition tf_concat0 :: "'a tensor \<Rightarrow> 'a tensor \<Rightarrow> tf_error + 'a tensor" where
  "tf_concat0 a b =
     (case shape a of
        [] \<Rightarrow> Inl InvalidArgumentError
      | na # ra \<Rightarrow>
          (case shape b of
             [] \<Rightarrow> Inl InvalidArgumentError
           | nb # rb \<Rightarrow>
               if ra = rb then Inr \<lparr>shape = (na + nb) # ra, flat = flat a @ flat b\<rparr>
               else Inl InvalidArgumentError))"

text \<open>\<open>tf.stop_gradient\<close> changes how gradients flow, not the values.\<close>

definition tf_stop_gradient :: "'a tensor \<Rightarrow> 'a tensor" where
  "tf_stop_gradient t = t"

text \<open>
  The sub-layer is a function from its input batch to its output batch: it is
  deterministic and has no effect besides its result.
  \<^verbatim>\<open>
  def _batch_predict(self, inputs, training):
      i = tf.constant(self.chunk_size)
      result = self.layer(inputs[:self.chunk_size], training=training)
      i, result = tf.while_loop(
          lambda i,_: i < tf.shape(inputs)[0],
          lambda i,result: (
              i + self.chunk_size,
              tf.concat(
                  (result, self.layer(inputs[i:i+self.chunk_size], training=training)),
                  axis=0)),
          loop_vars=[i, result], ...)
      return result
  \<close>
  The loop need not end (a chunk size of 0 never advances \<open>i\<close>), so its model is a
  partial function: \<open>None\<close> is a loop that does not return.
\<close>

partial_function (option) batch_loop ::
    "('a tensor \<Rightarrow> 'b tensor) \<Rightarrow> int \<Rightarrow> 'a tensor \<Rightarrow> int \<Rightarrow> 'b tensor \<Rightarrow> (tf_error + 'b tensor) option" where
  "batch_loop layer chunk_size inputs i result =
     (if i < int (leading_dim inputs)
      then (case tf_slice0 inputs i (i + chunk_size) of
              Inl err \<Rightarrow> Some (Inl err)
            | Inr chunk \<Rightarrow>
                (case tf_concat0 result (layer chunk) of
                   Inl err \<Rightarrow> Some (Inl err)
                 | Inr result' \<Rightarrow> batch_loop layer chunk_size inputs (i + chunk_size) result'))
      else Some (Inr result))"

declare batch_loop.simps [code]

definition batch_predict ::
    "('a tensor \<Rightarrow> 'b tensor) \<Rightarrow> int \<Rightarrow> 'a tensor \<Rightarrow> (tf_error + 'b tensor) option" where
  "batch_predict layer chunk_size inputs =
     (case tf_slice0 inputs 0 chunk_size of
        Inl err \<Rightarrow> Some (Inl err)
      | Inr chunk \<Rightarrow> batch_loop layer chunk_size inputs chunk_size (layer chunk))"

text \<open>
  \<^verbatim>\<open>
  def call(self, inputs, training=None):
      axis = self.axis
      if axis < 0:
          axis = tf.rank(inputs) + axis
      input_shape = tf.shape(inputs)
      left = input_shape[:axis+1]
      right = input_shape[axis+1:]
      inputs = tf.reshape(inputs, tf.concat(([-1], right), axis=0))
      if self.chunk_size is None:
          result = self.layer(inputs, training=training)
      else:
          result = tf.cond(
              tf.shape(inputs)[0] <= self.chunk_size,
              lambda: self.layer(inputs, training=training),
              lambda: self._batch_predict(inputs, training=training))
      if self.stop_gradient:
          result = tf.stop_gradient(result)
      return tf.reshape(result, tf.concat((left, tf.shape(result)[1:]), axis=0))
  \<close>
\<close>

definition ChunkedEmbeddingLayer_call ::
    "('a tensor \<Rightarrow> 'b tensor) \<Rightarrow> int \<Rightarrow> int option \<Rightarrow> bool \<Rightarrow> 'a tensor
      \<Rightarrow> (tf_error + 'b tensor) option" where
  "ChunkedEmbeddingLayer_call layer axis chunk_size stop_gradient inputs =
     (let axis = (if axis < 0 then int (length (shape inputs)) + axis else axis);
          input_shape = shape inputs;
          left = py_slice_to input_shape (axis + 1);
          right = py_slice_from input_shape (axis + 1)
      in case tf_reshape_infer inputs right of
           Inl err \<Rightarrow> Some (Inl err)
         | Inr inputs \<Rightarrow>
             (case (case chunk_size of
                      None \<Rightarrow> Some (Inr (layer inputs))
                    | Some c \<Rightarrow>
                        if int (leading_dim inputs) \<le> c then Some (Inr (layer inputs))
                        else batch_predict layer c inputs) of
                None \<Rightarrow> None
              | Some (Inl err) \<Rightarrow> Some (Inl err)
              | Some (Inr result) \<Rightarrow>
                  (let result = (if stop_gradient then tf_stop_gradient result else result)
                   in Some (tf_reshape result (left @ py_slice_from (shape result) 1)))))"

text \<open>
  The specification's reference point: evaluate the sub-layer once on the whole
  flattened input and reshape the result back to the original leading sizes.
\<close>

definition evaluate_whole ::
    "('a tensor \<Rightarrow> 'b tensor) \<Rightarrow> int \<Rightarrow> 'a tensor \<Rightarrow> tf_error + 'b tensor" where
  "evaluate_whole layer axis inputs =
     (let k = slice_bound (length (shape inputs))
                ((if axis < 0 then int (length (shape inputs)) + axis else axis) + 1)
      in case tf_reshape_infer inputs (drop k (shape inputs)) of
           Inl err \<Rightarrow> Inl err
         | Inr flattened \<Rightarrow>
             tf_reshape (layer flattened) (take k (shape inputs) @ tl (shape (layer flattened))))"

text \<open>
  A sub-layer acts per row when it commutes with concatenation of batches along the
  leading axis: its output for a batch is its outputs for the parts of the batch,
  concatenated. Within a row it may combine the entries as it likes.
\<close>

definition acts_per_row :: "('a tensor \<Rightarrow> 'b tensor) \<Rightarrow> bool" where
  "acts_per_row layer \<longleftrightarrow>
     (\<forall>a b r. well_formed a \<and> well_formed b \<and> tf_concat0 a b = Inr r
        \<longrightarrow> tf_concat0 (layer a) (layer b) = Inr (layer r))"

text \<open>
  Three sub-layers: one subtracts the total of its whole input batch from every element
  (its output for a row depends on the other rows of the batch, as with batch
  statistics); one doubles every element; one replaces every row by the sum of its
  entries.
\<close>

definition batch_total_layer :: "int tensor \<Rightarrow> int tensor" where
  "batch_total_layer t = t\<lparr>flat := map (\<lambda>x. x - sum_list (flat t)) (flat t)\<rparr>"

definition double_layer :: "int tensor \<Rightarrow> int tensor" where
  "double_layer t = t\<lparr>flat := map (\<lambda>x. 2 * x) (flat t)\<rparr>"

definition row_sum_layer :: "int tensor \<Rightarrow> int tensor" where
  "row_sum_layer t =
     (case shape t of
        [] \<Rightarrow> t
      | n # rest \<Rightarrow>
          \<lparr>shape = [n],
           flat = map (\<lambda>i. sum_list (take (prod_list rest) (drop (i * prod_list rest) (flat t))))
                    [0..<n]\<rparr>)"

section \<open>Properties\<close>

text \<open>
  Claim C6. For every input tensor and every boolean mask tensor \<open>M\<close>, the mask that
  InvertMask passes on is the elementwise negation of \<open>M\<close> (same shape, every entry
  negated), and the values it returns are the input values unchanged.
\<close>

theorem InvertMask_inverts_mask_keeps_values:
  "InvertMask_compute_mask inputs (Some M)
     = Some \<lparr>shape = shape M, flat = map Not (flat M)\<rparr>
   \<and> InvertMask_call x = x"
  by (simp add: InvertMask_compute_mask_def InvertMask_call_def tf_logical_not_def
      tf_add_scalar_def)

text \<open>
  Claim C10. For every head index \<open>h\<close> of the layer and every value \<open>a\<close>,
  \<open>set_attention_attribution_weight\<close> succeeds, makes the entry of head \<open>h\<close> equal to \<open>a\<close>
  and leaves every other entry, and the number of entries, as they were;
  \<open>reset_attention_attribution_weights\<close> makes every entry 1, whatever the weights were.
\<close>

theorem set_weight_frame_and_reset:
  assumes "0 \<le> h" and "h < int (length (alpha l))"
  shows "(\<exists>l'. set_attention_attribution_weight l h a = Inr l'
            \<and> alpha l' ! nat h = a
            \<and> (\<forall>k. k \<noteq> nat h \<longrightarrow> alpha l' ! k = alpha l ! k)
            \<and> length (alpha l') = length (alpha l)
            \<and> num_heads l' = num_heads l \<and> key_dim l' = key_dim l)
         \<and> alpha (reset_attention_attribution_weights l) = replicate (num_heads l) 1
         \<and> num_heads (reset_attention_attribution_weights l) = num_heads l"
  using assms
  by (auto simp: set_attention_attribution_weight_def reset_attention_attribution_weights_def)

theorem set_weight_frame_and_reset_witness:
  "(0::int) \<le> 1 \<and> (1::int) < int (length (alpha (mha_init 3 8)))
   \<and> set_attention_attribution_weight (mha_init 3 8) 1 (1/2)
       = Inr \<lparr>num_heads = 3, key_dim = 8, alpha = [1, 1/2, 1]\<rparr>
   \<and> alpha (reset_attention_attribution_weights
        \<lparr>num_heads = 3, key_dim = 8, alpha = [1, 1/2, 1]\<rparr>) = [1, 1, 1]"
  using set_weight_frame_and_reset [where h = 1 and l = "mha_init 3 8" and a = "1/2"]
  by (simp add: mha_init_def set_attention_attribution_weight_def
      reset_attention_attribution_weights_def numeral_3_eq_3)

subsection \<open>Attention with unit weights\<close>

lemma scale_head_one: "scale_head 1 m = m"
  by (simp add: scale_head_def)

lemma map2_scale_head_ones: "length heads = n \<Longrightarrow> map2 scale_head (replicate n 1) heads = heads"
  by (induction heads arbitrary: n) (auto simp: scale_head_one)

lemma multiply_alpha_ones:
  assumes "list_all (\<lambda>heads. length heads = n) sc"
  shows "multiply_alpha (replicate n 1) sc = Inr sc"
  using assms
  by (induction sc) (simp_all add: multiply_heads_def map2_scale_head_ones)

text \<open>
  Claim C7. When \<open>alpha\<close> is all ones, as after construction and after
  \<open>reset_attention_attribution_weights\<close>, multiplying the attention scores (which have one
  entry per head along the heads axis) by \<open>alpha\<close> returns them unchanged, and
  \<open>_compute_attention\<close> returns the attention output and the scores of standard scaled
  dot-product multi-head attention on the same query, key and value.
\<close>

theorem unit_alpha_is_standard_attention:
  assumes "alpha l = replicate (num_heads l) 1"
    and "list_all (\<lambda>heads. length heads = num_heads l)
           (masked_softmax ops
              (einsum_dot_product ops key (tf_multiply_scalar query (1 / sqrt (real (key_dim l)))))
              attention_mask)"
  shows "multiply_alpha (alpha l)
           (masked_softmax ops
              (einsum_dot_product ops key (tf_multiply_scalar query (1 / sqrt (real (key_dim l)))))
              attention_mask)
         = Inr (masked_softmax ops
              (einsum_dot_product ops key (tf_multiply_scalar query (1 / sqrt (real (key_dim l)))))
              attention_mask)
       \<and> compute_attention ops l query key val attention_mask training
           = Inr (standard_compute_attention ops (key_dim l) query key val attention_mask training)
       \<and> alpha (mha_init (num_heads l) (key_dim l)) = replicate (num_heads l) 1
       \<and> alpha (reset_attention_attribution_weights l) = replicate (num_heads l) 1"
  using multiply_alpha_ones [OF assms(2)] assms(1)
  by (simp add: compute_attention_def standard_compute_attention_def Let_def mha_init_def
      reset_attention_attribution_weights_def)

theorem unit_alpha_is_standard_attention_witness:
  "alpha (mha_init 2 4) = replicate (num_heads (mha_init 2 4)) 1
   \<and> list_all (\<lambda>heads. length heads = num_heads (mha_init 2 4))
        (masked_softmax toy_ops
           (einsum_dot_product toy_ops \<lparr>shape = [1], flat = [3]\<rparr>
              (tf_multiply_scalar \<lparr>shape = [1], flat = [6]\<rparr> (1 / sqrt (real (key_dim (mha_init 2 4))))))
           None)
   \<and> compute_attention toy_ops (mha_init 2 4) \<lparr>shape = [1], flat = [6]\<rparr> \<lparr>shape = [1], flat = [3]\<rparr>
        \<lparr>shape = [1], flat = [3]\<rparr> None None
       = Inr ([[[[3]], [[3]]]], [[[[3]], [[3]]]])"
  using unit_alpha_is_standard_attention [where l = "mha_init 2 4" and ops = toy_ops
      and query = "\<lparr>shape = [1], flat = [6]\<rparr>" and key = "\<lparr>shape = [1], flat = [3]\<rparr>"
      and val = "\<lparr>shape = [1], flat = [3]\<rparr>" and attention_mask = None and training = None]
  by (simp add: mha_init_def toy_ops_def tf_multiply_scalar_def standard_compute_attention_def
      numeral_2_eq_2 Let_def)

subsection \<open>Thresholding an all-zero layer\<close>

lemma np_maximum_zero: "is_zero x \<Longrightarrow> is_zero y \<Longrightarrow> np_maximum x y = x"
  by (cases x; cases y) (simp_all add: np_maximum_def is_zero_def)

lemma fold_maximum_zero:
  "is_zero x \<Longrightarrow> list_all is_zero xs \<Longrightarrow> fold (\<lambda>y m. np_maximum m y) xs x = x"
  by (induction xs) (simp_all add: np_maximum_zero)

lemma np_max_zero:
  assumes "list_all (list_all is_zero) a" and "concat a \<noteq> []"
  shows "\<exists>s. np_max a = Inr (Zero s)"
proof -
  from assms(1) have all: "list_all is_zero (concat a)"
    by (auto simp: list_all_iff)
  from assms(2) obtain x xs where c: "concat a = x # xs" by (cases "concat a") auto
  with all have "is_zero x" "list_all is_zero xs" by simp_all
  then have "fold (\<lambda>y m. np_maximum m y) xs x = x" by (rule fold_maximum_zero)
  moreover from \<open>is_zero x\<close> obtain s where "x = Zero s" by (cases x) (simp_all add: is_zero_def)
  ultimately show ?thesis by (simp add: np_max_def c)
qed

lemma divide_zero_zero: "is_zero x \<Longrightarrow> np_divide rnd x (Zero s) = NaN"
  by (cases x) (simp_all add: is_zero_def)

lemma argwhere_all_False:
  assumes "list_all (list_all (\<lambda>c. \<not> c)) b"
  shows "np_argwhere b = []"
proof -
  have row: "filter snd (enumerate n r) = []" if "list_all (\<lambda>c. \<not> c) r" for n and r :: "bool list"
    using that by (induction r arbitrary: n) simp_all
  have "filter snd (enumerate 0 (snd p)) = []" if p: "p \<in> set (enumerate 0 b)" for p
  proof -
    from p have "fst p < length b" "b ! fst p = snd p" by (auto simp: in_set_enumerate_eq)
    then have "snd p \<in> set b" by (metis nth_mem)
    with assms have "list_all (\<lambda>c. \<not> c) (snd p)" unfolding list_all_iff by blast
    then show ?thesis by (rule row)
  qed
  then show ?thesis
    by (auto simp: np_argwhere_def)
qed

text \<open>
  Claim C8 (as amended). Thresholding an all-zero attribution layer is not guarded: its
  maximum is zero, the division by it is carried out and gives not-a-number in every
  entry. Every comparison of not-a-number with \<open>tau\<close> is false, so the layer contributes
  no edges, and what reaches the tree walk is an empty list of integer pairs, no
  not-a-number.
\<close>

theorem zero_layer_divides_by_zero_without_edges:
  assumes "list_all (list_all is_zero) a_ij" and "concat a_ij \<noteq> []"
  shows "(\<exists>s. np_max a_ij = Inr (Zero s))
       \<and> layer_quotients rnd a_ij = Inr (map (map (\<lambda>x. NaN)) a_ij)
       \<and> layer_edges rnd universal tau a_ij = Inr []"
proof -
  from np_max_zero [OF assms] obtain s where mx: "np_max a_ij = Inr (Zero s)" by blast
  have "map (map (\<lambda>x. np_divide rnd x (Zero s))) a_ij = map (map (\<lambda>x. NaN)) a_ij"
    using assms(1) by (auto simp: list_all_iff divide_zero_zero)
  then have q: "layer_quotients rnd a_ij = Inr (map (map (\<lambda>x. NaN)) a_ij)"
    by (simp add: layer_quotients_def mx)
  have "np_argwhere (map (map (\<lambda>x. np_greater x tau)) (map (map (\<lambda>x. NaN)) a_ij)) = []"
    by (rule argwhere_all_False) (simp add: list_all_iff)
  then have "layer_edges rnd universal tau a_ij = Inr []"
    by (simp add: layer_edges_def q)
  with mx q show ?thesis by blast
qed

theorem zero_layer_divides_by_zero_without_edges_witness:
  "list_all (list_all is_zero) [[Zero False, Zero True], [Zero False, Zero False]]
   \<and> concat [[Zero False, Zero True], [Zero False, Zero False]] \<noteq> []
   \<and> layer_edges Fin int (Fin (2/5)) [[Zero False, Zero True], [Zero False, Zero False]] = Inr []"
  using zero_layer_divides_by_zero_without_edges [where rnd = Fin and universal = int
      and tau = "Fin (2/5)" and a_ij = "[[Zero False, Zero True], [Zero False, Zero False]]"]
  by (simp add: is_zero_def)

text \<open>
  Claim C8 as stated fails: for the layer with the single entry 0 the division by the
  maximum 0 is evaluated, and its result is not-a-number.
\<close>

theorem zero_layer_division_not_guarded:
  "np_max [[Zero False]] = Inr (Zero False)
   \<and> layer_quotients Fin [[Zero False]] = Inr [[NaN]]"
  by (simp add: layer_quotients_def np_max_def)

subsection \<open>The attribution tree walk\<close>

lemma walk_edge_char:
  assumes "i \<in> dom (state w)" "j \<in> dom (state w)"
  shows "walk_edge (i, j) w =
    Inr (if i \<noteq> j \<and> (state w i = Some Appear \<or> state w i = Some Fixed) \<and> state w j = Some NotAppear
         then w\<lparr>state := (state w)(i \<mapsto> Fixed, j \<mapsto> Appear),
                edges := insert (i, j) (edges w),
                vertices := insert j (vertices w)\<rparr>
         else w)"
  using assms
  apply (cases "state w i"; cases "state w j")
  apply (auto simp: walk_edge_def state_is_def and_then_def Let_def fun_upd_twist map_upd_triv)
  done

lemma walk_init_inv:
  assumes "0 \<le> top_node" "top_node < int n"
  shows "walk_inv n top_node (walk_init n top_node)"
  using assms by (auto simp: walk_inv_def walk_init_def dom_def acyclic_def)

lemma add_edge_inv:
  assumes inv: "walk_inv n top_node w"
    and ij: "i \<noteq> j"
    and si: "state w i = Some Appear \<or> state w i = Some Fixed"
    and sj: "state w j = Some NotAppear"
  shows "walk_inv n top_node
           (w\<lparr>state := (state w)(i \<mapsto> Fixed, j \<mapsto> Appear),
              edges := insert (i, j) (edges w),
              vertices := insert j (vertices w)\<rparr>)"
proof -
  let ?E = "edges w" and ?V = "vertices w"
  from inv have dom: "dom (state w) = {0..<int n}"
    and V: "?V = {v. state w v = Some Appear \<or> state w v = Some Fixed}"
    and top: "top_node \<in> ?V"
    and E: "\<And>a b. (a, b) \<in> ?E \<Longrightarrow> a \<in> ?V \<and> b \<in> ?V \<and> b \<noteq> top_node"
    and uniq: "\<And>v. v \<in> ?V \<Longrightarrow> v \<noteq> top_node \<Longrightarrow> \<exists>!a. (a, v) \<in> ?E"
    and reach: "\<And>v. v \<in> ?V \<Longrightarrow> (top_node, v) \<in> ?E\<^sup>*"
    and acyc: "acyclic ?E"
    by (auto simp: walk_inv_def)
  from si V have iV: "i \<in> ?V" by simp
  from sj V have jV: "j \<notin> ?V" by simp
  from jV top have jtop: "j \<noteq> top_node" by auto
  have dom': "dom ((state w)(i \<mapsto> Fixed, j \<mapsto> Appear)) = {0..<int n}"
    using dom si sj by auto
  have V': "insert j ?V = {v. ((state w)(i \<mapsto> Fixed, j \<mapsto> Appear)) v = Some Appear
                            \<or> ((state w)(i \<mapsto> Fixed, j \<mapsto> Appear)) v = Some Fixed}"
    using V si ij by auto
  have E': "\<forall>(a, b) \<in> insert (i, j) ?E. a \<in> insert j ?V \<and> b \<in> insert j ?V \<and> b \<noteq> top_node"
    using E iV jtop by auto
  have noin: "\<And>a. (a, j) \<notin> ?E" using E jV by blast
  have noout: "\<And>b. (j, b) \<notin> ?E" using E jV by blast
  have uniq': "\<forall>v \<in> insert j ?V. v \<noteq> top_node \<longrightarrow> (\<exists>!a. (a, v) \<in> insert (i, j) ?E)"
  proof (intro ballI impI)
    fix v assume v: "v \<in> insert j ?V" and vt: "v \<noteq> top_node"
    show "\<exists>!a. (a, v) \<in> insert (i, j) ?E"
    proof (cases "v = j")
      case True
      then show ?thesis using noin by auto
    next
      case False
      with v have "v \<in> ?V" by simp
      from uniq [OF this vt] False show ?thesis by auto
    qed
  qed
  have mono: "?E\<^sup>* \<subseteq> (insert (i, j) ?E)\<^sup>*"
    by (rule rtrancl_mono) auto
  have reach': "\<forall>v \<in> insert j ?V. (top_node, v) \<in> (insert (i, j) ?E)\<^sup>*"
  proof
    fix v assume v: "v \<in> insert j ?V"
    show "(top_node, v) \<in> (insert (i, j) ?E)\<^sup>*"
    proof (cases "v = j")
      case True
      have "(top_node, i) \<in> (insert (i, j) ?E)\<^sup>*" using reach [OF iV] mono by blast
      then show ?thesis using True by (auto intro: rtrancl_into_rtrancl)
    next
      case False
      with v have "v \<in> ?V" by simp
      then show ?thesis using reach mono by blast
    qed
  qed
  have "(j, i) \<notin> ?E\<^sup>*"
  proof
    assume "(j, i) \<in> ?E\<^sup>*"
    then show False using ij noout by (auto elim: converse_rtranclE)
  qed
  with acyc have acyc': "acyclic (insert (i, j) ?E)"
    by (simp add: acyclic_insert)
  let ?w' = "w\<lparr>state := (state w)(i \<mapsto> Fixed, j \<mapsto> Appear),
              edges := insert (i, j) (edges w),
              vertices := insert j (vertices w)\<rparr>"
  have sel: "state ?w' = (state w)(i \<mapsto> Fixed, j \<mapsto> Appear)"
    "edges ?w' = insert (i, j) ?E" "vertices ?w' = insert j ?V"
    by simp_all
  from top have top': "top_node \<in> insert j ?V" by simp
  show ?thesis
    unfolding walk_inv_def sel
    using dom' V' top' E' uniq' reach' acyc' by blast
qed

lemma walk_edge_inv:
  assumes inv: "walk_inv n top_node w"
    and i: "0 \<le> i" "i < int n" and j: "0 \<le> j" "j < int n"
  shows "\<exists>w'. walk_edge (i, j) w = Inr w' \<and> walk_inv n top_node w'"
proof -
  from inv have dom: "dom (state w) = {0..<int n}" by (simp add: walk_inv_def)
  with i j have "i \<in> dom (state w)" "j \<in> dom (state w)" by auto
  note char = walk_edge_char [OF this]
  show ?thesis
    unfolding char using inv add_edge_inv [OF inv] by auto
qed

lemma walk_layer_inv:
  assumes "walk_inv n top_node w"
    and "\<forall>(i, j) \<in> set es. 0 \<le> i \<and> i < int n \<and> 0 \<le> j \<and> j < int n"
  shows "\<exists>w'. walk_layer es w = Inr w' \<and> walk_inv n top_node w'"
  using assms
proof (induction es arbitrary: w)
  case Nil
  then show ?case by simp
next
  case (Cons e es)
  obtain i j where e: "e = (i, j)" by (cases e)
  with Cons.prems have "0 \<le> i" "i < int n" "0 \<le> j" "j < int n" by auto
  from walk_edge_inv [OF Cons.prems(1) this]
  obtain w1 where w1: "walk_edge (i, j) w = Inr w1" "walk_inv n top_node w1" by blast
  from Cons.IH [OF w1(2)] Cons.prems(2) obtain w' where
    "walk_layer es w1 = Inr w'" "walk_inv n top_node w'" by auto
  with w1 e show ?case by simp
qed

lemma walk_layers_inv:
  assumes "walk_inv n top_node w"
    and "edges_in_range n ebl"
    and "\<forall>l \<in> set ls. 0 \<le> l \<and> nat l < length ebl"
  shows "\<exists>w'. walk_layers ebl ls w = Inr w' \<and> walk_inv n top_node w'"
  using assms
proof (induction ls arbitrary: w)
  case Nil
  then show ?case by simp
next
  case (Cons l ls)
  then have "nat l < length ebl" by simp
  with Cons.prems(2) have "\<forall>(i, j) \<in> set (ebl ! nat l). 0 \<le> i \<and> i < int n \<and> 0 \<le> j \<and> j < int n"
    by (auto simp: edges_in_range_def list_all_iff)
  from walk_layer_inv [OF Cons.prems(1) this]
  obtain w1 where w1: "walk_layer (ebl ! nat l) w = Inr w1" "walk_inv n top_node w1" by blast
  from Cons.IH [OF w1(2) Cons.prems(2)] Cons.prems(3) obtain w' where
    "walk_layers ebl ls w1 = Inr w'" "walk_inv n top_node w'" by auto
  with w1 show ?case by simp
qed

lemma set_range_down: "set (range_down a b) = {b + 1 .. a}"
  by (simp add: range_down_def)


lemma inject_class_token_eq:
  assumes "set js \<subseteq> dom st"
  shows "inject_class_token st js es =
           Inr (es \<union> {(- 1, j) | j. j \<in> set js \<and> (st j = Some Appear \<or> st j = Some Fixed)})"
  using assms
proof (induction js arbitrary: es)
  case Nil
  then show ?case by simp
next
  case (Cons j js)
  then obtain s where s: "st j = Some s" by auto
  from Cons have "set js \<subseteq> dom st" by simp
  note IH = Cons.IH [OF this]
  show ?case
    by (cases s) (auto simp: s IH)
qed


lemma walk_order_eq: "walk_order ebl = map int (rev [0 ..< length ebl - 1])"
proof -
  have "[0 .. int k - 1] = map int [0 ..< k]" for k
  proof (induction k)
    case 0
    then show ?case by simp
  next
    case (Suc k)
    have "[0 .. int (Suc k) - 1] = [0 .. int k - 1] @ [int k]"
      using upto_rec2 [of 0 "int k"] by simp
    with Suc show ?case by simp
  qed
  from this [of "length ebl - 1"] show ?thesis
    by (cases "length ebl") (simp_all add: walk_order_def range_down_def rev_map)
qed

lemma walk_result:
  assumes top: "0 \<le> top_node" "top_node < int n"
    and rng: "edges_in_range n ebl"
  shows "\<exists>w. walk_layers ebl (walk_order ebl) (walk_init n top_node) = Inr w
            \<and> walk_inv n top_node w"
proof -
  have "\<forall>l \<in> set (walk_order ebl). 0 \<le> l \<and> nat l < length ebl"
    by (auto simp: walk_order_eq)
  from walk_layers_inv [OF walk_init_inv [OF top] rng this] show ?thesis .
qed

lemma tree_reconstruction_eq:
  assumes w: "walk_layers ebl (walk_order ebl) (walk_init n top_node) = Inr w"
    and inv: "walk_inv n top_node w"
  shows "tree_reconstruction n top_node ebl =
           Inr (edges w \<union> (\<lambda>v. (- 1, v)) ` vertices w, insert (- 1) (vertices w))"
proof -
  from inv have dom: "dom (state w) = {0..<int n}"
    and V: "vertices w = {v. state w v = Some Appear \<or> state w v = Some Fixed}"
    by (auto simp: walk_inv_def)
  have card: "int (card (dom (state w))) = int n" by (simp add: dom)
  have sub: "set (range_down (int n - 1) (- 1)) \<subseteq> dom (state w)"
    by (auto simp: set_range_down dom)
  have eq: "{(- 1, j) | j. j \<in> set (range_down (int n - 1) (- 1))
            \<and> (state w j = Some Appear \<or> state w j = Some Fixed)}
        = (\<lambda>v. (- 1, v)) ` vertices w"
    using dom by (auto simp: V set_range_down)
  have "inject_class_token (state w) (range_down (int n - 1) (- 1)) (edges w)
          = Inr (edges w \<union> (\<lambda>v. (- 1, v)) ` vertices w)"
    using inject_class_token_eq [OF sub, of "edges w"] unfolding eq .
  then show ?thesis
    by (simp add: tree_reconstruction_def add_class_token_def w card)
qed

lemma acyclic_add_source:
  assumes acyc: "acyclic E" and fresh: "s \<notin> Field E" and sV: "s \<notin> V"
  shows "acyclic (E \<union> (\<lambda>v. (s, v)) ` V)"
proof -
  let ?R = "E \<union> (\<lambda>v. (s, v)) ` V"
  have nos: "\<And>x. (x, s) \<notin> E" using fresh by (auto simp: Field_def)
  have step: "(x, y) \<in> ?R\<^sup>+ \<Longrightarrow> x \<noteq> s \<Longrightarrow> (x, y) \<in> E\<^sup>+" for x y
  proof (induction rule: trancl_induct)
    case (base y)
    then show ?case by auto
  next
    case (step y z)
    then have xy: "(x, y) \<in> E\<^sup>+" by simp
    then have "y \<noteq> s" using nos by (auto elim: tranclE)
    with step.hyps(2) have "(y, z) \<in> E" by auto
    with xy show ?case by (rule trancl_into_trancl)
  qed
  have "(x, x) \<notin> ?R\<^sup>+" for x
  proof
    assume c: "(x, x) \<in> ?R\<^sup>+"
    show False
    proof (cases "x = s")
      case True
      from c obtain y where "(y, s) \<in> ?R" unfolding True by (auto elim: tranclE)
      then show False using nos sV by auto
    next
      case False
      from step [OF c False] acyc show False by (auto simp: acyclic_def)
    qed
  qed
  then show ?thesis by (auto simp: acyclic_def)
qed

text \<open>
  Claim C2 (as amended). For every number of tokens, every top node among them and all
  candidate edge sets over them, \<open>token_attribution\<close> returns vertex and edge sets in
  which: the class token \<open>-1\<close> and the top node are vertices; every edge joins two
  vertices; the class token has an edge to every other vertex and has no incoming edge;
  the top node has no other incoming edge; every vertex other than the class token and
  the top node has exactly one incoming edge from a token, next to its edge from the
  class token; every vertex other than the class token is reached from the top node along
  token-to-token edges; and the edge set has no directed cycle. So the token-to-token
  edges are a tree on the token vertices, rooted at the top node; the whole edge set is
  not a tree as soon as the walk adds an edge.
\<close>

theorem attribution_graph_shape:
  assumes "0 \<le> top_node" and "top_node < int n" and "edges_in_range n ebl"
  shows "\<exists>E V. tree_reconstruction n top_node ebl = Inr (E, V)
           \<and> - 1 \<in> V \<and> top_node \<in> V \<and> V \<subseteq> insert (- 1) {0..<int n}
           \<and> (\<forall>(i, j) \<in> E. i \<in> V \<and> j \<in> V)
           \<and> (\<forall>v \<in> V. v \<noteq> - 1 \<longrightarrow> (- 1, v) \<in> E)
           \<and> (\<forall>v \<in> V. v \<noteq> - 1 \<and> v \<noteq> top_node \<longrightarrow> (\<exists>!i. i \<noteq> - 1 \<and> (i, v) \<in> E))
           \<and> incoming E top_node = {- 1} \<and> incoming E (- 1) = {}
           \<and> (\<forall>v \<in> V. v \<noteq> - 1 \<longrightarrow> (top_node, v) \<in> {(i, j). (i, j) \<in> E \<and> i \<noteq> - 1}\<^sup>*)
           \<and> acyclic E"
proof -
  from walk_result [OF assms] obtain w where
    w: "walk_layers ebl (walk_order ebl) (walk_init n top_node) = Inr w"
    and inv: "walk_inv n top_node w" by blast
  let ?Ew = "edges w" and ?Vw = "vertices w"
  let ?E = "?Ew \<union> (\<lambda>v. (- 1, v)) ` ?Vw" and ?V = "insert (- 1) ?Vw"
  note res = tree_reconstruction_eq [OF w inv]
  from inv have dom: "dom (state w) = {0..<int n}"
    and V: "?Vw = {v. state w v = Some Appear \<or> state w v = Some Fixed}"
    and top: "top_node \<in> ?Vw"
    and E: "\<And>a b. (a, b) \<in> ?Ew \<Longrightarrow> a \<in> ?Vw \<and> b \<in> ?Vw \<and> b \<noteq> top_node"
    and uniq: "\<And>v. v \<in> ?Vw \<Longrightarrow> v \<noteq> top_node \<Longrightarrow> \<exists>!a. (a, v) \<in> ?Ew"
    and reach: "\<And>v. v \<in> ?Vw \<Longrightarrow> (top_node, v) \<in> ?Ew\<^sup>*"
    and acyc: "acyclic ?Ew"
    by (auto simp: walk_inv_def)
  have Vsub: "?Vw \<subseteq> {0..<int n}" using V dom by auto
  then have m1: "- 1 \<notin> ?Vw" by auto
  have tok: "{(i, j). (i, j) \<in> ?E \<and> i \<noteq> - 1} = ?Ew"
    using E m1 by auto
  have c1: "- 1 \<in> ?V" "top_node \<in> ?V" "?V \<subseteq> insert (- 1) {0..<int n}"
    using top Vsub by auto
  have c1e: "\<forall>(i, j) \<in> ?E. i \<in> ?V \<and> j \<in> ?V" using E by auto
  have c2: "\<forall>v \<in> ?V. v \<noteq> - 1 \<longrightarrow> (- 1, v) \<in> ?E" by auto
  have c3: "\<forall>v \<in> ?V. v \<noteq> - 1 \<and> v \<noteq> top_node \<longrightarrow> (\<exists>!i. i \<noteq> - 1 \<and> (i, v) \<in> ?E)"
  proof (intro ballI impI)
    fix v assume "v \<in> ?V" and "v \<noteq> - 1 \<and> v \<noteq> top_node"
    then have "v \<in> ?Vw" "v \<noteq> top_node" by auto
    from uniq [OF this] obtain a where a: "(a, v) \<in> ?Ew" "\<And>b. (b, v) \<in> ?Ew \<Longrightarrow> b = a"
      by auto
    from a(1) E m1 have a1: "a \<noteq> - 1" by auto
    show "\<exists>!i. i \<noteq> - 1 \<and> (i, v) \<in> ?E"
    proof (rule ex1I [of _ a])
      from a(1) a1 show "a \<noteq> - 1 \<and> (a, v) \<in> ?E" by simp
    next
      fix b assume "b \<noteq> - 1 \<and> (b, v) \<in> ?E"
      then have "(b, v) \<in> ?Ew" by auto
      then show "b = a" by (rule a(2))
    qed
  qed
  have c4: "incoming ?E top_node = {- 1}" "incoming ?E (- 1) = {}"
    using E top m1 by (auto simp: incoming_def)
  have c5: "\<forall>v \<in> ?V. v \<noteq> - 1 \<longrightarrow> (top_node, v) \<in> {(i, j). (i, j) \<in> ?E \<and> i \<noteq> - 1}\<^sup>*"
    unfolding tok using reach by auto
  have "- 1 \<notin> Field ?Ew" using E m1 by (auto simp: Field_def)
  from acyclic_add_source [OF acyc this m1] have c6: "acyclic ?E" .
  show ?thesis
    by (intro exI conjI) (rule res c1 c1e c2 c3 c4 c5 c6)+
qed

theorem attribution_graph_shape_witness:
  "(0::int) \<le> 0 \<and> (0::int) < int 3 \<and> edges_in_range 3 [[(0, 1), (1, 2)], [(2, 0)]]
   \<and> (\<exists>E V. tree_reconstruction 3 0 [[(0, 1), (1, 2)], [(2, 0)]] = Inr (E, V)
           \<and> - 1 \<in> V \<and> 0 \<in> V \<and> V \<subseteq> insert (- 1) {0..<int 3}
           \<and> (\<forall>(i, j) \<in> E. i \<in> V \<and> j \<in> V)
           \<and> (\<forall>v \<in> V. v \<noteq> - 1 \<longrightarrow> (- 1, v) \<in> E)
           \<and> (\<forall>v \<in> V. v \<noteq> - 1 \<and> v \<noteq> 0 \<longrightarrow> (\<exists>!i. i \<noteq> - 1 \<and> (i, v) \<in> E))
           \<and> incoming E 0 = {- 1} \<and> incoming E (- 1) = {}
           \<and> (\<forall>v \<in> V. v \<noteq> - 1 \<longrightarrow> (0, v) \<in> {(i, j). (i, j) \<in> E \<and> i \<noteq> - 1}\<^sup>*)
           \<and> acyclic E)"
proof -
  have h: "(0::int) \<le> 0" "(0::int) < int 3" "edges_in_range 3 [[(0, 1), (1, 2)], [(2, 0)]]"
    by (simp_all add: edges_in_range_def)
  from attribution_graph_shape [OF h] h show ?thesis by (intro conjI)
qed

text \<open>
  Claim C2 as stated fails: with two tokens, top node 0 and the candidate edge \<open>(0, 1)\<close>
  in the first layer, vertex 1 has two incoming edges, from token 0 and from the class
  token.
\<close>

lemma walk_init_small:
  "walk_order [[(0, 1)], []] = [0]" "walk_order [[], [(0, 1)]] = [0]"
  by (simp_all add: walk_order_def range_down_def)


lemma walk_one_candidate:
  "walk_layer [(0, 1)] (walk_init 2 0) = Inr w \<Longrightarrow> edges w = {(0, 1)} \<and> vertices w = {0, 1}"
  by (auto simp: walk_init_def walk_edge_def state_is_def and_then_def)

theorem class_token_second_parent:
  "tree_reconstruction 2 0 [[(0, 1)], []] = Inr ({(0, 1), (- 1, 0), (- 1, 1)}, {- 1, 0, 1})
   \<and> incoming {(0, 1), (- 1, 0), (- 1, 1)} 1 = {0, - 1}"
proof -
  have rng: "edges_in_range 2 [[(0, 1)], []]" by (simp add: edges_in_range_def)
  from walk_result [of 0 2, OF _ _ rng] obtain w where
    w: "walk_layers [[(0, 1)], []] (walk_order [[(0, 1)], []]) (walk_init 2 0) = Inr w"
    and inv: "walk_inv 2 0 w" by auto
  from w have "walk_layer [(0, 1)] (walk_init 2 0) = Inr w"
    by (simp add: walk_init_small split: sum.splits)
  from walk_one_candidate [OF this] have ev: "edges w = {(0, 1)}" "vertices w = {0, 1}" by simp_all
  have "tree_reconstruction 2 0 [[(0, 1)], []] = Inr ({(0, 1), (- 1, 0), (- 1, 1)}, {- 1, 0, 1})"
    using tree_reconstruction_eq [OF w inv] by (simp add: ev insert_commute)
  moreover have "incoming {(0, 1), (- 1, 0), (- 1, 1)} 1 = {0, - 1}"
    by (auto simp: incoming_def)
  ultimately show ?thesis by simp
qed

lemma walk_layer_append:
  "walk_layer (es @ fs) w =
     (case walk_layer es w of Inl err \<Rightarrow> Inl err | Inr w' \<Rightarrow> walk_layer fs w')"
  by (induction es arbitrary: w) (auto split: sum.splits)

lemma walk_layers_descending:
  "m \<le> length ebl \<Longrightarrow>
   walk_layers ebl (map int (rev [0 ..< m])) w = walk_layer (concat (rev (take m ebl))) w"
proof (induction m arbitrary: w)
  case 0
  then show ?case by simp
next
  case (Suc m)
  then have m: "m < length ebl" by simp
  from Suc have IH: "walk_layers ebl (map int (rev [0 ..< m])) w'
                     = walk_layer (concat (rev (take m ebl))) w'" for w' by simp
  have "concat (rev (take (Suc m) ebl)) = ebl ! m @ concat (rev (take m ebl))"
    using m by (simp add: take_Suc_conv_app_nth)
  then show ?case
    by (simp add: IH walk_layer_append split: sum.splits)
qed

text \<open>
  Claim C5 (as amended). The walk runs the state machine over the candidate edges of
  layer \<open>len - 2\<close>, then of layer \<open>len - 3\<close>, and so on down to layer 0: every layer but
  the final one, each once, from the deepest to the shallowest. The final layer
  \<open>len - 1\<close>, the one whose threshold is forced to 0, is not visited: its candidate
  edges do not influence the returned edges and vertices.
\<close>

theorem walk_skips_final_layer:
  "tree_reconstruction n top_node (ebl @ [final])
     = (case walk_layer (concat (rev ebl)) (walk_init n top_node) of
          Inl err \<Rightarrow> Inl err
        | Inr w \<Rightarrow> add_class_token w)
   \<and> walk_order (ebl @ [final]) = map int (rev [0 ..< length ebl])
   \<and> distinct (walk_order (ebl @ [final]))
   \<and> int (length (ebl @ [final])) - 1 \<notin> set (walk_order (ebl @ [final]))
   \<and> tree_reconstruction n top_node (ebl @ [final]) = tree_reconstruction n top_node (ebl @ [final'])
   \<and> last (taus tau (int (length (ebl @ [final])))) = 0
   \<and> length (taus tau (int (length (ebl @ [final])))) = length (ebl @ [final])"
proof -
  have ord: "walk_order (ebl @ [x]) = map int (rev [0 ..< length ebl])" for x
    by (simp add: walk_order_eq)
  have dist: "distinct (map int (rev [0 ..< length ebl]))"
    by (simp add: distinct_map inj_on_def)
  have seq: "walk_layers (ebl @ [x]) (map int (rev [0 ..< length ebl])) w
             = walk_layer (concat (rev ebl)) w" for x w
    using walk_layers_descending [of "length ebl" "ebl @ [x]" w] by simp
  have run: "tree_reconstruction n top_node (ebl @ [x])
             = (case walk_layer (concat (rev ebl)) (walk_init n top_node) of
                  Inl err \<Rightarrow> Inl err
                | Inr w \<Rightarrow> add_class_token w)" for x
    by (simp add: tree_reconstruction_def ord seq)
  have indep: "tree_reconstruction n top_node (ebl @ [final])
               = tree_reconstruction n top_node (ebl @ [final'])"
    by (simp only: run)
  have notin: "int (length (ebl @ [final])) - 1 \<notin> set (walk_order (ebl @ [final]))"
    by (auto simp: ord)
  have tau0: "last (taus tau (int (length (ebl @ [final])))) = 0"
    "length (taus tau (int (length (ebl @ [final])))) = length (ebl @ [final])"
    by (simp_all add: taus_def)
  show ?thesis
    using run [of final] ord [of final] dist indep notin tau0
    by (simp only: simp_thms)
qed

text \<open>
  Claim C5 as stated fails: with two layers, the candidate edge \<open>(0, 1)\<close> of the final
  layer is never walked, although the top node 0 has appeared and token 1 has not.
\<close>

theorem final_layer_not_walked:
  "int (length [[], [(0, 1)]]) - 1 \<notin> set (walk_order [[], [(0::int, 1::int)]])
   \<and> tree_reconstruction 2 0 [[], [(0, 1)]] = Inr ({(- 1, 0)}, {- 1, 0})"
proof -
  have rng: "edges_in_range 2 [[], [(0, 1)]]" by (simp add: edges_in_range_def)
  from walk_result [of 0 2, OF _ _ rng] obtain w where
    w: "walk_layers [[], [(0, 1)]] (walk_order [[], [(0, 1)]]) (walk_init 2 0) = Inr w"
    and inv: "walk_inv 2 0 w" by auto
  from w have "w = walk_init 2 0"
    by (simp add: walk_init_small)
  then have ev: "edges w = {}" "vertices w = {0}" by (simp_all add: walk_init_def)
  have "tree_reconstruction 2 0 [[], [(0, 1)]] = Inr ({(- 1, 0)}, {- 1, 0})"
    using tree_reconstruction_eq [OF w inv] by (simp add: ev)
  then show ?thesis by (simp add: walk_init_small)
qed

subsection \<open>Reading a store without a length key\<close>

lemma record_keys_Suc:
  "record_keys (Suc k) = record_keys k \<union> {X_key k, Metadata_key k, Attr_shape_key k, Attrs_key k}"
  by (auto simp: record_keys_def less_Suc_eq)

lemma finite_record_keys: "finite (record_keys k)"
  by (simp add: record_keys_def)

lemma card_record_keys: "card (record_keys k) = 4 * k"
proof (induction k)
  case 0
  then show ?case by (simp add: record_keys_def)
next
  case (Suc k)
  have disj: "record_keys k \<inter> {X_key k, Metadata_key k, Attr_shape_key k, Attrs_key k} = {}"
    by (auto simp: record_keys_def)
  have "card {X_key k, Metadata_key k, Attr_shape_key k, Attrs_key k} = 4" by simp
  with Suc disj show ?case
    by (simp only: record_keys_Suc card_Un_disjoint [OF finite_record_keys _ disj] finite.intros)
       simp
qed

lemma for_range_map:
  assumes "\<forall>n \<in> set ns. body n = Inr (f n)"
  shows "for_range body ns = Inr (map f ns)"
  using assms by (induction ns) simp_all

lemma record_loop_map:
  assumes "\<forall>n \<in> set ns. read n = Inr (f n)"
  shows "record_loop read process ns s = process_all process (map f ns) s"
  using assms by (induction ns arbitrary: s) (simp_all split: sum.splits)

lemma length_groups4: "length (groups4 b) = length b div 4"
  by (induction b rule: groups4.induct) simp_all

lemma reshape_sizes_nat:
  assumes "length xs = prod_list shp"
  shows "reshape_sizes xs (map int shp) = Inr \<lparr>shape = shp, flat = xs\<rparr>"
proof -
  have "prod_list (map int shp) = int (prod_list shp)"
    by (induction shp) simp_all
  moreover have "list_all (\<lambda>k. 0 \<le> k) (map int shp)"
    by (simp add: list_all_iff)
  moreover have "map nat (map int shp) = shp"
    by (simp add: map_idI)
  ultimately show ?thesis
    using assms by (simp add: reshape_sizes_def)
qed

text \<open>
  Claim C9 (as amended). If the store has no \<open>"length"\<close> key and holds \<open>k\<close> records,
  at least one, each with its four keys, a metadata entry that unpickles to a list of
  token names, a shape entry that unpickles to a shape, and an attribution buffer of 4
  bytes per element of that shape, then \<open>token_attribution\<close> derives the record count
  \<open>k\<close> as the number of keys divided by 4, no read of the store fails, and its result is
  that of processing exactly the records \<open>0, ..., k - 1\<close>, decoded, in this order, and
  building the tree from them: it fails only if that processing fails.
\<close>

theorem missing_length_processes_key_count_records:
  assumes no_length: "Length_key \<notin> dom st"
    and keys: "dom st = record_keys k"
    and k: "0 < k"
    and meta: "\<forall>n < k. st (Metadata_key n) = Some (mb n) \<and> loads (mb n) = Inr (PyStrList (names n))"
    and shapes: "\<forall>n < k. st (Attr_shape_key n) = Some (sb n)
                   \<and> loads (sb n) = Inr (PyIntTuple (map int (shp n)))"
    and bufs: "\<forall>n < k. st (Attrs_key n) = Some (ab n) \<and> length (ab n) = 4 * prod_list (shp n)"
    and shape0: "shp 0 \<noteq> []"
  shows "store_length st = Inr (card (dom st) div 4)
       \<and> card (dom st) div 4 = k
       \<and> token_attribution process finish start decode loads tau st
           = (case process_all
                     (process (fold assign_ids (map (\<lambda>n. map Name (names n)) [0..<k]) Map.empty)
                        (taus tau (int (hd (shp 0)))))
                     (map (\<lambda>n. (map Name (names n),
                                 \<lparr>shape = shp n, flat = map decode (groups4 (ab n))\<rparr>)) [0..<k])
                     (start (taus tau (int (hd (shp 0))))) of
                Inl err \<Rightarrow> Inl err
              | Inr s \<Rightarrow>
                  finish (fold assign_ids (map (\<lambda>n. map Name (names n)) [0..<k]) Map.empty) s)"
proof -
  have len: "store_length st = Inr (card (dom st) div 4)"
    using no_length by (simp add: store_length_def)
  have card: "card (dom st) div 4 = k"
    by (simp add: keys card_record_keys)
  have rng: "py_range (store_length st) = Inr [0..<k]"
    by (simp add: len card py_range_def)
  have nm: "read_token_names loads st n = Inr (map Name (names n))" if "n < k" for n
    using meta that by (simp add: read_token_names_def store_get_def py_iter_def)
  then have loop1: "for_range (read_token_names loads st) [0..<k]
                    = Inr (map (\<lambda>n. map Name (names n)) [0..<k])"
    by (intro for_range_map) simp
  obtain d0 rest0 where s0: "shp 0 = d0 # rest0" using shape0 by (cases "shp 0") auto
  have ts: "read_taus loads tau st = Inr (taus tau (int (hd (shp 0))))"
    using shapes k by (simp add: read_taus_def store_get_def first_entry_def s0)
  have rec: "read_record decode loads st n
             = Inr (map Name (names n), \<lparr>shape = shp n, flat = map decode (groups4 (ab n))\<rparr>)"
    if n: "n < k" for n
  proof -
    from bufs n have ab: "st (Attrs_key n) = Some (ab n)" "length (ab n) = 4 * prod_list (shp n)"
      by simp_all
    have fb: "np_frombuffer decode (ab n) = Inr (map decode (groups4 (ab n)))"
      by (simp add: np_frombuffer_def ab(2))
    have "length (map decode (groups4 (ab n))) = prod_list (shp n)"
      by (simp add: length_groups4 ab(2))
    from reshape_sizes_nat [OF this]
    have rs: "np_reshape (map decode (groups4 (ab n))) (PyIntTuple (map int (shp n)))
              = Inr \<lparr>shape = shp n, flat = map decode (groups4 (ab n))\<rparr>"
      by (simp add: np_reshape_def)
    from shapes n have sh: "st (Attr_shape_key n) = Some (sb n)"
      "loads (sb n) = Inr (PyIntTuple (map int (shp n)))" by simp_all
    show ?thesis
      by (simp add: read_record_def store_get_def sh nm [OF n] ab(1) fb rs)
  qed
  then have loop2: "record_loop (read_record decode loads st) p [0..<k] s
      = process_all p
          (map (\<lambda>n. (map Name (names n), \<lparr>shape = shp n, flat = map decode (groups4 (ab n))\<rparr>))
             [0..<k]) s" for p :: "token_name list \<times> np_float tensor \<Rightarrow> 's \<Rightarrow> tf_error + 's" and s
    by (intro record_loop_map) simp
  have "token_attribution process finish start decode loads tau st
           = (case process_all
                     (process (fold assign_ids (map (\<lambda>n. map Name (names n)) [0..<k]) Map.empty)
                        (taus tau (int (hd (shp 0)))))
                     (map (\<lambda>n. (map Name (names n),
                                 \<lparr>shape = shp n, flat = map decode (groups4 (ab n))\<rparr>)) [0..<k])
                     (start (taus tau (int (hd (shp 0))))) of
                Inl err \<Rightarrow> Inl err
              | Inr s \<Rightarrow>
                  finish (fold assign_ids (map (\<lambda>n. map Name (names n)) [0..<k]) Map.empty) s)"
    by (simp add: token_attribution_def rng loop1 ts loop2 Let_def)
  with len card show ?thesis by simp
qed

lemma no_length_in_record_keys: "Length_key \<notin> record_keys k"
  by (simp add: record_keys_def)

lemma one_record_store_keys:
  "Length_key \<notin> dom one_record_store" "dom one_record_store = record_keys 1"
  "Length_key \<notin> dom short_buffer_store"
  by (auto simp: one_record_store_def short_buffer_store_def record_keys_def)

lemma buffer_72: "length (concat (replicate 18 [0, 0, 128, 63::nat])) = 4 * prod_list [2, 1, 3, 3]"
  by code_simp

theorem missing_length_processes_key_count_records_witness:
  "Length_key \<notin> dom one_record_store \<and> dom one_record_store = record_keys 1 \<and> (0::nat) < 1
   \<and> store_length one_record_store = Inr 1
   \<and> token_attribution count_record return_count no_records toy_decode toy_loads (2/5) one_record_store
       = Inr 1"
proof -
  have meta: "\<forall>n < 1. one_record_store (Metadata_key n) = Some ((\<lambda>n. [0]) n)
                \<and> toy_loads ((\<lambda>n. [0]) n) = Inr (PyStrList ((\<lambda>n. [''a'', ''b'']) n))"
    by (simp add: one_record_store_def toy_loads_def)
  have shapes: "\<forall>n < 1. one_record_store (Attr_shape_key n) = Some ((\<lambda>n. [1]) n)
                \<and> toy_loads ((\<lambda>n. [1]) n) = Inr (PyIntTuple (map int ((\<lambda>n. [2, 1, 3, 3]) n)))"
    by (simp add: one_record_store_def toy_loads_def)
  have bufs: "\<forall>n < 1. one_record_store (Attrs_key n)
                  = Some ((\<lambda>n. concat (replicate 18 [0, 0, 128, 63])) n)
                \<and> length ((\<lambda>n. concat (replicate 18 [0, 0, 128, 63::nat])) n)
                    = 4 * prod_list ((\<lambda>n. [2, 1, 3, 3]) n)"
    using buffer_72 by (simp add: one_record_store_def)
  have s0: "(\<lambda>n::nat. [2, 1, 3, 3::nat]) 0 \<noteq> []" by simp
  from missing_length_processes_key_count_records
         [OF one_record_store_keys(1,2) _ meta shapes bufs s0,
          of count_record return_count no_records toy_decode "2/5"]
  show ?thesis
    by (simp add: one_record_store_keys no_length_in_record_keys count_record_def
        return_count_def no_records_def)
qed

text \<open>
  Claim C9 as stated fails: a store without a \<open>"length"\<close> key and without records makes
  \<open>token_attribution\<close> fail at \<open>store["0_attr_shape"]\<close>, and a store whose single record has
  a buffer of 2 bytes makes it fail in \<open>np.frombuffer\<close>.
\<close>

theorem missing_length_may_still_fail:
  "Length_key \<notin> dom (Map.empty :: store)
   \<and> token_attribution count_record return_count no_records toy_decode toy_loads (2/5) Map.empty
       = Inl KeyError
   \<and> Length_key \<notin> dom short_buffer_store
   \<and> token_attribution count_record return_count no_records toy_decode toy_loads (2/5) short_buffer_store
       = Inl ValueError"
proof -
  have 1: "token_attribution count_record return_count no_records toy_decode toy_loads (2/5) Map.empty
           = Inl KeyError"
    by (simp add: token_attribution_def store_length_def py_range_def read_taus_def store_get_def)
  have dom: "dom short_buffer_store = record_keys 1"
    by (auto simp: short_buffer_store_def record_keys_def)
  have rng: "py_range (store_length short_buffer_store) = Inr [0]"
    using card_record_keys [of 1]
    by (simp add: store_length_def py_range_def no_length_in_record_keys dom)
  have nm: "read_token_names toy_loads short_buffer_store 0 = Inr [Name ''a'', Name ''b'']"
    by (simp add: read_token_names_def store_get_def short_buffer_store_def toy_loads_def
        py_iter_def)
  have ts: "read_taus toy_loads (2/5) short_buffer_store = Inr (taus (2/5) 2)"
    by (simp add: read_taus_def store_get_def short_buffer_store_def toy_loads_def
        first_entry_def)
  have rd: "read_record toy_decode toy_loads short_buffer_store 0 = Inl ValueError"
    by (simp add: read_record_def read_token_names_def store_get_def short_buffer_store_def
        toy_loads_def py_iter_def np_frombuffer_def)
  have 2: "token_attribution count_record return_count no_records toy_decode toy_loads (2/5)
             short_buffer_store = Inl ValueError"
    by (simp add: token_attribution_def rng nm ts rd Let_def)
  from 1 2 one_record_store_keys(3) show ?thesis by simp
qed

subsection \<open>Rounding to a 32-bit float\<close>

lemma round_half_even_ge: "of_int a \<le> q \<Longrightarrow> a \<le> round_half_even q"
proof -
  assume "of_int a \<le> q"
  then have "a \<le> \<lfloor>q\<rfloor>" by (simp add: le_floor_iff)
  then show ?thesis by (auto simp: round_half_even_def Let_def)
qed

lemma round_half_even_le: "q \<le> of_int b \<Longrightarrow> round_half_even q \<le> b"
proof -
  assume q: "q \<le> of_int b"
  then have f: "\<lfloor>q\<rfloor> \<le> b" by (simp add: floor_le_iff)
  have "\<lfloor>q\<rfloor> + 1 \<le> b" if "q - of_int \<lfloor>q\<rfloor> \<ge> 1/2"
  proof -
    from that have "of_int \<lfloor>q\<rfloor> < q" by linarith
    with q have "of_int \<lfloor>q\<rfloor> < (of_int b :: real)" by linarith
    then show ?thesis by linarith
  qed
  with f show ?thesis by (auto simp: round_half_even_def Let_def)
qed

lemma pow2_nonpos: "e \<le> 0 \<Longrightarrow> pow2 e = 1 / 2 ^ nat (- e)"
  by (cases "e = 0") (auto simp: pow2_def)

lemma log2_less: "0 < y \<Longrightarrow> y < 2 ^ m \<Longrightarrow> log 2 y < real m"
proof -
  assume y: "0 < y" "y < 2 ^ m"
  then have "log 2 y < log 2 (2 ^ m)" by (intro log_less) simp_all
  then show ?thesis by simp
qed

lemma float32_bracket:
  assumes j: "j \<le> 24" and x: "\<bar>x\<bar> < 2 ^ (24 - j)"
    and a: "of_int a / 2 ^ j \<le> x" and b: "x \<le> of_int b / 2 ^ j"
  shows "of_int a / 2 ^ j \<le> float32 x \<and> float32 x \<le> of_int b / 2 ^ j"
proof (cases "x = 0")
  case True
  with a b show ?thesis by (simp add: float32_def)
next
  case False
  define e where "e = max (\<lfloor>log 2 \<bar>x\<bar>\<rfloor> - 23) (- 149)"
  define n where "n = nat (- e)"
  from False x have "log 2 \<bar>x\<bar> < real (24 - j)" by (intro log2_less) simp_all
  then have "\<lfloor>log 2 \<bar>x\<bar>\<rfloor> < int (24 - j)" by (simp add: floor_less_iff)
  with j have e: "e \<le> - int j" by (simp add: e_def)
  then have jn: "j \<le> n" and e0: "e \<le> 0" by (simp_all add: n_def)
  have p: "pow2 e = 1 / 2 ^ n" using e0 by (simp add: pow2_nonpos n_def)
  have fl: "float32 x = of_int (round_half_even (x * 2 ^ n)) / 2 ^ n"
    using False by (simp add: float32_def e_def [symmetric] p Let_def)
  have split: "(2::real) ^ n = 2 ^ j * 2 ^ (n - j)"
    using jn by (simp flip: power_add)
  have "of_int (a * 2 ^ (n - j)) \<le> x * 2 ^ n"
  proof -
    from a have "of_int a \<le> x * 2 ^ j" by (simp add: divide_le_eq)
    then have "of_int a * 2 ^ (n - j) \<le> x * 2 ^ j * 2 ^ (n - j)"
      by (intro mult_right_mono) simp_all
    then show ?thesis by (simp add: split mult.assoc)
  qed
  then have "a * 2 ^ (n - j) \<le> round_half_even (x * 2 ^ n)" by (rule round_half_even_ge)
  then have "(of_int (a * 2 ^ (n - j)) :: real) \<le> of_int (round_half_even (x * 2 ^ n))"
    by (simp only: of_int_le_iff)
  then have lo: "of_int a / 2 ^ j \<le> float32 x"
    by (simp add: fl split divide_le_eq le_divide_eq mult.assoc mult.commute mult.left_commute)
  have "x * 2 ^ n \<le> of_int (b * 2 ^ (n - j))"
  proof -
    from b have "x * 2 ^ j \<le> of_int b" by (simp add: le_divide_eq)
    then have "x * 2 ^ j * 2 ^ (n - j) \<le> of_int b * 2 ^ (n - j)"
      by (intro mult_right_mono) simp_all
    then show ?thesis by (simp add: split mult.assoc)
  qed
  then have "round_half_even (x * 2 ^ n) \<le> b * 2 ^ (n - j)" by (rule round_half_even_le)
  then have "(of_int (round_half_even (x * 2 ^ n)) :: real) \<le> of_int (b * 2 ^ (n - j))"
    by (simp only: of_int_le_iff)
  then have hi: "float32 x \<le> of_int b / 2 ^ j"
    by (simp add: fl split divide_le_eq le_divide_eq mult.assoc mult.commute mult.left_commute)
  from lo hi show ?thesis ..
qed

lemma float32_between:
  assumes "\<bar>x\<bar> < 2 ^ 24" and "of_int a \<le> x" and "x \<le> of_int b"
  shows "of_int a \<le> float32 x \<and> float32 x \<le> of_int b"
  using float32_bracket [of 0 x a b] assms by simp

lemma float32_exact:
  assumes "j \<le> 24" and "\<bar>of_int m / 2 ^ j\<bar> < (2::real) ^ (24 - j)"
  shows "float32 (of_int m / 2 ^ j) = of_int m / 2 ^ j"
  using float32_bracket [OF assms, of m m] by simp

lemma float32_values:
  "float32 (1/2) = 1/2" "float32 3 = 3" "float32 (3/2) = 3/2" "float32 4 = 4"
  using float32_exact [of 1 1] float32_exact [of 0 3] float32_exact [of 1 3] float32_exact [of 0 4]
  by simp_all

text \<open>The value of \<open>float32\<close> in a known binade, and at the ratios 0.7 and 0.1.\<close>

lemma float32_binade:
  assumes x: "0 < x" and lo: "pow2 k \<le> x" and hi: "x < pow2 (k + 1)" and k: "- 126 \<le> k"
  shows "float32 x = of_int (round_half_even (x / pow2 (k - 23))) * pow2 (k - 23)"
proof -
  have p: "pow2 e = 2 powr (of_int e)" for e
    by (cases "0 \<le> e") (simp_all add: pow2_def powr_realpow [symmetric] powr_minus divide_inverse)
  have fl: "\<lfloor>log 2 x\<rfloor> = k"
    using x lo hi by (simp add: floor_log_eq_powr_iff p)
  from k have "max (k - 23) (- 149) = k - 23" by simp
  with x fl show ?thesis
    by (simp add: float32_def Let_def)
qed

lemma round_half_even_near:
  assumes "\<bar>q - of_int n\<bar> < 1/2"
  shows "round_half_even q = n"
proof (cases "of_int n \<le> q")
  case True
  with assms have "\<lfloor>q\<rfloor> = n" by (intro floor_unique) linarith+
  with True assms show ?thesis by (simp add: round_half_even_def Let_def)
next
  case False
  with assms have "of_int (n - 1) \<le> q" "q < of_int (n - 1) + 1" by simp_all
  then have f: "\<lfloor>q\<rfloor> = n - 1" by (rule floor_unique)
  from False assms have "1/2 < q - of_int (n - 1)" by simp
  with f show ?thesis by (simp add: round_half_even_def Let_def)
qed

lemma float32_seven_tenths: "float32 (7/10) = 11744051 / 2 ^ 24"
proof -
  have q: "(7/10) / pow2 (- 1 - 23) = (58720256 / 5 :: real)"
    by (simp add: pow2_def)
  have r: "round_half_even (58720256 / 5) = 11744051"
    by (rule round_half_even_near) simp
  have "float32 (7/10) = of_int (round_half_even ((7/10) / pow2 (- 1 - 23))) * pow2 (- 1 - 23)"
    by (rule float32_binade) (simp_all add: pow2_def)
  then show ?thesis unfolding q r by (simp add: pow2_def)
qed

lemma float32_tenth: "float32 (1/10) = 13421773 / 2 ^ 27"
proof -
  have q: "(1/10) / pow2 (- 4 - 23) = (67108864 / 5 :: real)"
    by (simp add: pow2_def)
  have r: "round_half_even (67108864 / 5) = 13421773"
    by (rule round_half_even_near) simp
  have "float32 (1/10) = of_int (round_half_even ((1/10) / pow2 (- 4 - 23))) * pow2 (- 4 - 23)"
    by (rule float32_binade) (simp_all add: pow2_def)
  then show ?thesis unfolding q r by (simp add: pow2_def)
qed

subsection \<open>ContiguousMask\<close>




lemma float32_ratio:
  assumes "0 \<le> r" and "r \<le> 1"
  shows "0 \<le> tf_variable_float32 r \<and> tf_variable_float32 r \<le> 1"
  using float32_between [of r 0 1] assms by (simp add: tf_variable_float32_def)

lemma float32_length:
  assumes "0 \<le> l" and "l < 2 ^ 24"
  shows "tfcast_int_to_float l = real_of_int l"
proof -
  from assms have "\<bar>real_of_int l\<bar> < 2 ^ 24" by simp
  from float32_between [OF this, of l l] show ?thesis
    by (simp add: tfcast_int_to_float_def)
qed






text \<open>
  The rounding of the product matters: with \<open>mask_ratio = 0.7\<close> and \<open>L = 10\<close> the 32-bit
  ratio is just below \<open>7/10\<close>, the 32-bit product is 7, and 7 positions are masked, while
  the floor of the exact product of \<open>L\<close> and the 32-bit ratio is 6.
\<close>

lemma mask_len_seven_tenths: "ContiguousMask_mask_len (ContiguousMask_init (7/10)) 10 = 7"
proof -
  have ten: "tfcast_int_to_float 10 = 10"
  proof -
    have q: "10 / pow2 (3 - 23) = (10485760 :: real)" by (simp add: pow2_def)
    have r: "round_half_even 10485760 = 10485760"
      using round_half_even_near [of 10485760 10485760] by simp
    have "float32 10 = of_int (round_half_even (10 / pow2 (3 - 23))) * pow2 (3 - 23)"
      by (rule float32_binade) (simp_all add: pow2_def)
    then show ?thesis unfolding q r
      by (simp add: tfcast_int_to_float_def pow2_def)
  qed
  have q: "(10 * (11744051 / 2 ^ 24)) / pow2 (2 - 23) = (58720255 / 4 :: real)"
    by (simp add: pow2_def)
  have r: "round_half_even (58720255 / 4) = 14680064"
    by (rule round_half_even_near) simp
  have "float32 (10 * (11744051 / 2 ^ 24))
        = of_int (round_half_even ((10 * (11744051 / 2 ^ 24)) / pow2 (2 - 23))) * pow2 (2 - 23)"
    by (rule float32_binade) (simp_all add: pow2_def)
  then have "float32 (10 * (11744051 / 2 ^ 24)) = 7"
    unfolding q r by (simp add: pow2_def)
  then show ?thesis
    by (simp add: ContiguousMask_mask_len_def ContiguousMask_init_def tf_variable_float32_def
        float32_seven_tenths ten tfcast_float_to_int_def)
qed

lemma floor_seven_tenths: "\<lfloor>real 10 * ContiguousMask_init (7/10)\<rfloor> = 6"
  by (simp add: ContiguousMask_init_def tf_variable_float32_def float32_seven_tenths)

subsection \<open>TrimAndContiguousMask\<close>

text \<open>The misplaced parenthesis makes every call fail in the addition.\<close>

lemma TrimAndContiguousMask_call_raises:
  "TrimAndContiguousMask_call max_len mask_ratio d inputs = Inl InvalidArgumentError"
  by (simp add: TrimAndContiguousMask_call_def tf_add_bool_int32_def Let_def)

text \<open>
  Claim C4 (as amended). In every call of TrimAndContiguousMask the mask length of a row
  is the ceiling of the 32-bit float product \<open>u * trimmed_length * r\<close>, for that row's
  uniform draw \<open>u\<close> from \<open>[0, 1)\<close> and the layer's 32-bit ratio \<open>r\<close>: a random length
  between 0 and \<open>ceil(r * trimmed_length)\<close>, not that value itself. (Trimmed lengths are
  below \<open>2^24\<close>, the ratio is between 0 and 1.)
\<close>

theorem mask_lengths_random_ceiling:
  assumes "length (u_mask_lengths d) = length (lengths d)"
    and "\<forall>u \<in> set (u_mask_lengths d). 0 \<le> u \<and> u < 1"
    and "\<forall>l \<in> set (lengths d). 0 \<le> l \<and> l < 2 ^ 24"
    and "0 \<le> mask_ratio" and "mask_ratio \<le> 1"
  shows "mask_lengths (TrimAndContiguousMask_init mask_ratio) d
           = map2 (\<lambda>u l. \<lceil>float32 (float32 (u * tfcast_int_to_float l)
                                    * TrimAndContiguousMask_init mask_ratio)\<rceil>)
               (u_mask_lengths d) (lengths d)
       \<and> length (mask_lengths (TrimAndContiguousMask_init mask_ratio) d) = length (lengths d)
       \<and> (\<forall>b < length (lengths d).
             0 \<le> mask_lengths (TrimAndContiguousMask_init mask_ratio) d ! b
             \<and> mask_lengths (TrimAndContiguousMask_init mask_ratio) d ! b
                 \<le> \<lceil>TrimAndContiguousMask_init mask_ratio * real_of_int (lengths d ! b)\<rceil>)"
proof -
  define r where "r = TrimAndContiguousMask_init mask_ratio"
  from assms(4,5) have r: "0 \<le> r" "r \<le> 1"
    using float32_ratio [of mask_ratio] by (simp_all add: r_def TrimAndContiguousMask_init_def)
  have cast: "tfcast_float_to_int (real_of_int k) = k" for k
    by (simp add: tfcast_float_to_int_def)
  have eq: "mask_lengths r d
           = map2 (\<lambda>u l. \<lceil>float32 (float32 (u * tfcast_int_to_float l) * r)\<rceil>)
               (u_mask_lengths d) (lengths d)"
    by (simp add: mask_lengths_def cast)
  have len: "length (mask_lengths r d) = length (lengths d)"
    using assms(1) by (simp add: eq)
  have "0 \<le> mask_lengths r d ! b
        \<and> mask_lengths r d ! b \<le> \<lceil>r * real_of_int (lengths d ! b)\<rceil>"
    if b: "b < length (lengths d)" for b
  proof -
    let ?u = "u_mask_lengths d ! b" and ?l = "lengths d ! b"
    from b assms have u: "0 \<le> ?u" "?u < 1" and l: "0 \<le> ?l" "?l < 2 ^ 24" by auto
    have nth: "mask_lengths r d ! b = \<lceil>float32 (float32 (?u * tfcast_int_to_float ?l) * r)\<rceil>"
      using b assms(1) by (simp add: eq)
    have fl: "tfcast_int_to_float ?l = real_of_int ?l" by (rule float32_length [OF l])
    have big: "real_of_int ?l < 2 ^ 24" using l by simp
    define x1 where "x1 = ?u * real_of_int ?l"
    have x1: "0 \<le> x1" "x1 \<le> real_of_int ?l"
      using u l by (simp_all add: x1_def mult_left_le_one_le)
    from x1 big have "\<bar>x1\<bar> < 2 ^ 24" by simp
    from float32_between [OF this, of 0 ?l] x1
    have y1: "0 \<le> float32 x1" "float32 x1 \<le> real_of_int ?l" by simp_all
    define x2 where "x2 = float32 x1 * r"
    have x2: "0 \<le> x2" using y1 r by (simp add: x2_def)
    have "float32 x1 * r \<le> real_of_int ?l * r"
      using y1 r by (intro mult_right_mono) simp_all
    then have x2le: "x2 \<le> r * real_of_int ?l" by (simp add: x2_def mult.commute)
    also have "\<dots> \<le> real_of_int \<lceil>r * real_of_int ?l\<rceil>" by simp
    finally have x2c: "x2 \<le> real_of_int \<lceil>r * real_of_int ?l\<rceil>" .
    have "r * real_of_int ?l \<le> real_of_int ?l"
      using r l by (simp add: mult_left_le_one_le)
    with x2le x2 big have "\<bar>x2\<bar> < 2 ^ 24" by simp
    from float32_between [OF this, of 0 "\<lceil>r * real_of_int ?l\<rceil>"] x2 x2c
    have y2: "0 \<le> float32 x2" "float32 x2 \<le> real_of_int \<lceil>r * real_of_int ?l\<rceil>" by simp_all
    from y2(1) have "0 \<le> \<lceil>float32 x2\<rceil>"
      by (simp add: zero_le_ceiling)
    moreover from y2(2) have "\<lceil>float32 x2\<rceil> \<le> \<lceil>r * real_of_int ?l\<rceil>"
      by (simp add: ceiling_le_iff)
    ultimately show ?thesis
      by (simp add: nth fl x1_def [symmetric] x2_def [symmetric])
  qed
  with eq len show ?thesis unfolding r_def by blast
qed

theorem mask_lengths_random_ceiling_witness:
  "length (u_mask_lengths \<lparr>lengths = [4], u_offsets = [0], u_mask_lengths = [3/4], u_mask_offsets = [0]\<rparr>)
     = length (lengths \<lparr>lengths = [4], u_offsets = [0], u_mask_lengths = [3/4], u_mask_offsets = [0]\<rparr>)
   \<and> list_all (\<lambda>u. 0 \<le> u \<and> u < 1)
        (u_mask_lengths \<lparr>lengths = [4], u_offsets = [0], u_mask_lengths = [3/4], u_mask_offsets = [0]\<rparr>)
   \<and> list_all (\<lambda>l. 0 \<le> l \<and> l < 2 ^ 24)
        (lengths \<lparr>lengths = [4], u_offsets = [0], u_mask_lengths = [3/4], u_mask_offsets = [0]\<rparr>)
   \<and> (0::real) \<le> 1/2 \<and> (1/2::real) \<le> 1
   \<and> mask_lengths (TrimAndContiguousMask_init (1/2))
        \<lparr>lengths = [4], u_offsets = [0], u_mask_lengths = [3/4], u_mask_offsets = [0]\<rparr>
       = [2]"
  using mask_lengths_random_ceiling [where mask_ratio = "1/2"
      and d = "\<lparr>lengths = [4], u_offsets = [0], u_mask_lengths = [3/4], u_mask_offsets = [0]\<rparr>"]
  by (simp add: TrimAndContiguousMask_init_def tf_variable_float32_def tfcast_int_to_float_def
      float32_values)

text \<open>
  Claim C4 as stated fails: with the draw \<open>u = 0\<close>, trimmed length 4 and
  \<open>mask_ratio = 1/2\<close> the mask length is 0, and \<open>ceil(mask_ratio * trimmed_length)\<close>
  is 2.
\<close>

theorem mask_lengths_not_fixed_ceiling:
  "mask_lengths (TrimAndContiguousMask_init (1/2))
     \<lparr>lengths = [4], u_offsets = [0], u_mask_lengths = [0], u_mask_offsets = [0]\<rparr>
     = [0]
   \<and> \<lceil>(1/2::real) * real_of_int 4\<rceil> = 2"
  by (simp add: mask_lengths_def tfcast_float_to_int_def float32_def)

text \<open>
  Here too the rounding of the product matters: with the draw \<open>u = 1/2\<close>, trimmed length
  20 and \<open>mask_ratio = 0.1\<close> the 32-bit product is 1 and the mask length is 1, while the
  ceiling of the exact product with the 32-bit ratio is 2.
\<close>

lemma mask_lengths_tenth:
  "mask_lengths (TrimAndContiguousMask_init (1/10))
     \<lparr>lengths = [20], u_offsets = [0], u_mask_lengths = [1/2], u_mask_offsets = [0]\<rparr> = [1]
   \<and> \<lceil>1/2 * real_of_int 20 * TrimAndContiguousMask_init (1/10)\<rceil> = 2"
proof -
  have twenty: "tfcast_int_to_float 20 = 20"
    using float32_exact [of 0 20] by (simp add: tfcast_int_to_float_def)
  have ten: "float32 10 = 10"
    using float32_exact [of 0 10] by simp
  have q: "(10 * (13421773 / 2 ^ 27)) / pow2 (0 - 23) = (67108865 / 8 :: real)"
    by (simp add: pow2_def)
  have r: "round_half_even (67108865 / 8) = 8388608"
    by (rule round_half_even_near) simp
  have "float32 (10 * (13421773 / 2 ^ 27))
        = of_int (round_half_even ((10 * (13421773 / 2 ^ 27)) / pow2 (0 - 23))) * pow2 (0 - 23)"
    by (rule float32_binade) (simp_all add: pow2_def)
  then have p: "float32 (10 * (13421773 / 2 ^ 27)) = 1"
    unfolding q r by (simp add: pow2_def)
  have c: "\<lceil>(10::real) * (13421773 / 2 ^ 27)\<rceil> = 2"
    by (rule ceiling_unique) simp_all
  from p c show ?thesis
    by (simp add: mask_lengths_def TrimAndContiguousMask_init_def tf_variable_float32_def
        float32_tenth twenty ten tfcast_float_to_int_def)
qed

subsection \<open>ChunkedEmbeddingLayer\<close>

lemma slice_bound_mono: "0 \<le> i \<Longrightarrow> i \<le> j \<Longrightarrow> slice_bound n i \<le> slice_bound n j"
  by (auto simp: slice_bound_def min_def)

lemma slice_bound_zero: "slice_bound n 0 = 0"
  by (simp add: slice_bound_def)

lemma slice_bound_ge: "int n \<le> i \<Longrightarrow> slice_bound n i = n"
  by (auto simp: slice_bound_def)

lemma tf_slice0_shape:
  "shape t = n # rest \<Longrightarrow>
   tf_slice0 t lo hi =
     Inr \<lparr>shape = (slice_bound n hi - slice_bound n lo) # rest,
          flat = take ((slice_bound n hi - slice_bound n lo) * prod_list rest)
                   (drop (slice_bound n lo * prod_list rest) (flat t))\<rparr>"
  by (simp add: tf_slice0_def Let_def)

lemma slices_concat:
  assumes sh: "shape t = n # rest" and ij: "0 \<le> i" "i \<le> j"
    and a: "tf_slice0 t 0 i = Inr a" and b: "tf_slice0 t i j = Inr b"
  shows "\<exists>c. tf_slice0 t 0 j = Inr c \<and> tf_concat0 a b = Inr c"
proof -
  let ?r = "prod_list rest"
  let ?bi = "slice_bound n i" and ?bj = "slice_bound n j"
  from ij have le: "?bi \<le> ?bj" by (simp add: slice_bound_mono)
  have a': "a = \<lparr>shape = ?bi # rest, flat = take (?bi * ?r) (flat t)\<rparr>"
    using a by (simp add: tf_slice0_shape [OF sh] slice_bound_zero)
  have b': "b = \<lparr>shape = (?bj - ?bi) # rest,
                flat = take ((?bj - ?bi) * ?r) (drop (?bi * ?r) (flat t))\<rparr>"
    using b by (simp add: tf_slice0_shape [OF sh])
  have "take (?bi * ?r) (flat t) @ take ((?bj - ?bi) * ?r) (drop (?bi * ?r) (flat t))
        = take (?bi * ?r + (?bj - ?bi) * ?r) (flat t)"
    by (simp add: take_add)
  also have "?bi * ?r + (?bj - ?bi) * ?r = ?bj * ?r"
    using le by (simp add: add_mult_distrib [symmetric])
  finally have fl: "take (?bi * ?r) (flat t) @ take ((?bj - ?bi) * ?r) (drop (?bi * ?r) (flat t))
        = take (?bj * ?r) (flat t)" .
  have "tf_concat0 a b = Inr \<lparr>shape = ?bj # rest, flat = take (?bj * ?r) (flat t)\<rparr>"
    using le by (simp add: tf_concat0_def a' b' fl)
  moreover have "tf_slice0 t 0 j = Inr \<lparr>shape = ?bj # rest, flat = take (?bj * ?r) (flat t)\<rparr>"
    by (simp add: tf_slice0_shape [OF sh] slice_bound_zero)
  ultimately show ?thesis by simp
qed

lemma slice_whole:
  assumes sh: "shape t = n # rest" and wf: "length (flat t) = n * prod_list rest"
    and j: "int n \<le> j"
  shows "tf_slice0 t 0 j = Inr t"
  using wf by (simp add: tf_slice0_shape [OF sh] slice_bound_zero slice_bound_ge [OF j] sh [symmetric])

lemma slice_bound_le: "slice_bound n i \<le> n"
  by (auto simp: slice_bound_def)

lemma slice_well_formed:
  assumes sh: "shape t = n # rest" and wf: "length (flat t) = n * prod_list rest"
    and s: "tf_slice0 t lo hi = Inr s"
  shows "well_formed s"
proof -
  let ?a = "slice_bound n lo" and ?b = "slice_bound n hi" and ?r = "prod_list rest"
  have "(?b - ?a) * ?r \<le> (n - ?a) * ?r"
    by (intro mult_right_mono diff_le_mono slice_bound_le) simp
  also have "\<dots> = n * ?r - ?a * ?r" by (simp add: diff_mult_distrib)
  finally have m: "min (n * ?r - ?a * ?r) ((?b - ?a) * ?r) = (?b - ?a) * ?r" by simp
  from s have s': "s = \<lparr>shape = (?b - ?a) # rest,
                          flat = take ((?b - ?a) * ?r) (drop (?a * ?r) (flat t))\<rparr>"
    by (simp add: tf_slice0_shape [OF sh])
  have "length (flat s) = (?b - ?a) * ?r"
    unfolding s' using m by (simp add: wf)
  then show ?thesis
    by (simp add: well_formed_def s')
qed

lemma batch_loop_prefix:
  assumes c: "0 < c" and rows: "acts_per_row layer" and sh: "shape t = n # rest"
    and wf: "length (flat t) = n * prod_list rest"
  shows "0 \<le> i \<Longrightarrow> tf_slice0 t 0 i = Inr p \<Longrightarrow>
         \<exists>q. tf_slice0 t 0 (max i (int n)) = Inr q \<and> batch_loop layer c t i (layer p) = Some (Inr (layer q))"
proof (induction "nat (int n - i)" arbitrary: i p rule: less_induct)
  case less
  have ld: "leading_dim t = n" by (simp add: leading_dim_def sh)
  show ?case
  proof (cases "i < int n")
    case False
    then have "max i (int n) = i" by simp
    with False less.prems show ?thesis
      by (subst batch_loop.simps) (simp add: ld)
  next
    case True
    obtain chunk where chunk: "tf_slice0 t i (i + c) = Inr chunk"
      by (simp add: tf_slice0_shape [OF sh])
    from c less.prems(1) have le: "0 \<le> i" "i \<le> i + c" by simp_all
    from slices_concat [OF sh le less.prems(2) chunk] obtain p' where
      p': "tf_slice0 t 0 (i + c) = Inr p'" "tf_concat0 p chunk = Inr p'" by blast
    have "well_formed p" "well_formed chunk"
      using slice_well_formed [OF sh wf] less.prems(2) chunk by blast+
    with rows p'(2) have cat: "tf_concat0 (layer p) (layer chunk) = Inr (layer p')"
      by (simp add: acts_per_row_def)
    have "nat (int n - (i + c)) < nat (int n - i)" using True c by simp
    from less.hyps [OF this _ p'(1)] less.prems(1) c obtain q where
      q: "tf_slice0 t 0 (max (i + c) (int n)) = Inr q"
         "batch_loop layer c t (i + c) (layer p') = Some (Inr (layer q))" by auto
    have "slice_bound n (max (i + c) (int n)) = slice_bound n (max i (int n))"
      by (simp add: slice_bound_ge)
    then have "tf_slice0 t 0 (max i (int n)) = Inr q"
      using q(1) by (simp add: tf_slice0_shape [OF sh])
    moreover have "batch_loop layer c t i (layer p) = Some (Inr (layer q))"
      by (subst batch_loop.simps) (simp add: ld True chunk cat q(2))
    ultimately show ?thesis by blast
  qed
qed

lemma batch_predict_whole:
  assumes c: "0 < c" and rows: "acts_per_row layer" and sh: "shape t = n # rest"
    and wf: "length (flat t) = n * prod_list rest"
  shows "batch_predict layer c t = Some (Inr (layer t))"
proof -
  obtain p where p: "tf_slice0 t 0 c = Inr p" by (simp add: tf_slice0_shape [OF sh])
  from batch_loop_prefix [OF c rows sh wf _ p] c obtain q where
    q: "tf_slice0 t 0 (max c (int n)) = Inr q" "batch_loop layer c t c (layer p) = Some (Inr (layer q))"
    by auto
  have "tf_slice0 t 0 (max c (int n)) = Inr t"
    by (rule slice_whole [OF sh wf]) simp
  with q(1) have "q = t" by simp
  with q(2) p show ?thesis by (simp add: batch_predict_def)
qed

lemma reshape_infer_wf:
  assumes "well_formed t" and "tf_reshape_infer t rest = Inr u"
  shows "\<exists>n. shape u = n # rest \<and> length (flat u) = n * prod_list rest"
proof (cases "0 \<in> set rest")
  case True
  with assms(2) have z: "0 \<in> set (shape t)"
    by (auto simp: tf_reshape_infer_def split: if_splits)
  then have "prod_list (shape t) = 0" by (simp add: prod_list_zero_iff)
  with assms(1) have "flat t = []" by (simp add: well_formed_def)
  moreover from True have "prod_list rest = 0" by (simp add: prod_list_zero_iff)
  ultimately show ?thesis
    using assms(2) True z by (auto simp: tf_reshape_infer_def)
next
  case False
  with assms(2) show ?thesis
    by (auto simp: tf_reshape_infer_def Let_def split: if_splits)
qed

lemma row_sum_rows:
  assumes la: "length fa = na * k"
  shows "map (\<lambda>i. sum_list (take k (drop (i * k) (fa @ fb)))) [0 ..< na + nb]
         = map (\<lambda>i. sum_list (take k (drop (i * k) fa))) [0 ..< na]
           @ map (\<lambda>i. sum_list (take k (drop (i * k) fb))) [0 ..< nb]"
proof -
  define f where "f i = sum_list (take k (drop (i * k) (fa @ fb)))" for i
  define g where "g i = sum_list (take k (drop (i * k) fa))" for i
  define h where "h i = sum_list (take k (drop (i * k) fb))" for i
  have left: "f i = g i" if "i < na" for i
  proof -
    from that have "Suc i \<le> na" by simp
    then have "Suc i * k \<le> na * k" by (rule mult_le_mono1)
    then have "k \<le> length fa - i * k" using la by simp
    moreover have "i * k \<le> length fa" using that la by simp
    ultimately show ?thesis by (simp add: f_def g_def)
  qed
  have right: "f (i + na) = h i" for i
    using la by (simp add: f_def h_def add_mult_distrib)
  have A: "map f [0 ..< na] = map g [0 ..< na]"
    by (rule map_cong) (simp_all add: left)
  have "map (\<lambda>i. f (i + na)) [0 ..< nb] = map f [na ..< nb + na]"
    by (induction nb) simp_all
  moreover have "nb + na = na + nb" by simp
  ultimately have B: "map f [na ..< na + nb] = map h [0 ..< nb]"
    by (simp only: right)
  have "[0 ..< na + nb] = [0 ..< na] @ [na ..< na + nb]"
    by (rule upt_add_eq_append) simp
  then have "map f [0 ..< na + nb] = map g [0 ..< na] @ map h [0 ..< nb]"
    by (simp only: map_append A B)
  then show ?thesis
    unfolding f_def g_def h_def .
qed

lemma acts_per_row_row_sum: "acts_per_row row_sum_layer"
  unfolding acts_per_row_def
proof (intro allI impI)
  fix a b r :: "int tensor"
  assume h: "well_formed a \<and> well_formed b \<and> tf_concat0 a b = Inr r"
  then obtain na nb rest where sa: "shape a = na # rest" and sb: "shape b = nb # rest"
    and r: "r = \<lparr>shape = (na + nb) # rest, flat = flat a @ flat b\<rparr>"
    by (auto simp: tf_concat0_def split: list.splits if_splits)
  from h sa have la: "length (flat a) = na * prod_list rest" by (simp add: well_formed_def)
  have ra: "row_sum_layer a
            = \<lparr>shape = [na],
               flat = map (\<lambda>i. sum_list (take (prod_list rest) (drop (i * prod_list rest) (flat a))))
                        [0 ..< na]\<rparr>"
    by (simp add: row_sum_layer_def sa)
  have rb: "row_sum_layer b
            = \<lparr>shape = [nb],
               flat = map (\<lambda>i. sum_list (take (prod_list rest) (drop (i * prod_list rest) (flat b))))
                        [0 ..< nb]\<rparr>"
    by (simp add: row_sum_layer_def sb)
  have rr: "row_sum_layer r
            = \<lparr>shape = [na + nb],
               flat = map (\<lambda>i. sum_list (take (prod_list rest)
                                  (drop (i * prod_list rest) (flat a @ flat b))))
                        [0 ..< na + nb]\<rparr>"
    unfolding row_sum_layer_def r by (simp only: tensor.simps list.case)
  show "tf_concat0 (row_sum_layer a) (row_sum_layer b) = Inr (row_sum_layer r)"
    unfolding ra rb rr row_sum_rows [OF la]
    by (simp add: tf_concat0_def)
qed

text \<open>
  Claim C1 (as amended). For every input tensor, every axis and every positive
  \<open>chunk_size\<close> (dividing the flattened leading size or not), and for \<open>chunk_size\<close> unset,
  ChunkedEmbeddingLayer applied to a sub-layer that acts per row returns what evaluating
  the sub-layer once on the whole flattened input and reshaping back returns (the same
  tensor, or the same reshape error); in particular the chunked loop ends.
\<close>

theorem chunked_equals_whole_for_row_layers:
  assumes "0 < c" and "acts_per_row layer" and "well_formed inputs"
  shows "ChunkedEmbeddingLayer_call layer axis (Some c) stop_gradient inputs
           = Some (evaluate_whole layer axis inputs)
       \<and> ChunkedEmbeddingLayer_call layer axis None stop_gradient inputs
           = Some (evaluate_whole layer axis inputs)"
proof -
  let ?axis = "(if axis < 0 then int (length (shape inputs)) + axis else axis)"
  let ?k = "slice_bound (length (shape inputs)) (?axis + 1)"
  have tl: "py_slice_from xs 1 = tl xs" for xs :: "nat list"
    by (cases xs) (simp_all add: py_slice_from_def slice_bound_def)
  show ?thesis
  proof (cases "tf_reshape_infer inputs (drop ?k (shape inputs))")
    case (Inl err)
    then show ?thesis
      by (simp add: ChunkedEmbeddingLayer_call_def evaluate_whole_def Let_def py_slice_from_def
          py_slice_to_def)
  next
    case (Inr u)
    from reshape_infer_wf [OF assms(3) Inr] obtain n where
      sh: "shape u = n # drop ?k (shape inputs)"
      and wf: "length (flat u) = n * prod_list (drop ?k (shape inputs))" by blast
    have bp: "batch_predict layer c u = Some (Inr (layer u))"
      by (rule batch_predict_whole [OF assms(1,2) sh wf])
    show ?thesis
      using Inr bp
      by (simp add: ChunkedEmbeddingLayer_call_def evaluate_whole_def Let_def py_slice_from_def [of "shape inputs"]
          py_slice_to_def tl tf_stop_gradient_def)
  qed
qed

theorem chunked_equals_whole_for_row_layers_witness:
  "(0::int) < 2
   \<and> well_formed \<lparr>shape = [3, 2], flat = [1, 2, 3, 4, 5, 6::int]\<rparr>
   \<and> ChunkedEmbeddingLayer_call row_sum_layer (- 2) (Some 2) False
        \<lparr>shape = [3, 2], flat = [1, 2, 3, 4, 5, 6]\<rparr>
       = Some (Inr \<lparr>shape = [3], flat = [3, 7, 11]\<rparr>)"
proof -
  have eval: "evaluate_whole row_sum_layer (- 2) \<lparr>shape = [3, 2], flat = [1, 2, 3, 4, 5, 6]\<rparr>
               = Inr \<lparr>shape = [3], flat = [3, 7, 11]\<rparr>"
    by code_simp
  have c: "(0::int) < 2" by simp
  have wf: "well_formed \<lparr>shape = [3, 2], flat = [1, 2, 3, 4, 5, 6::int]\<rparr>"
    by (simp add: well_formed_def)
  from chunked_equals_whole_for_row_layers [OF c acts_per_row_row_sum wf, of "- 2" False] eval c wf
  show ?thesis by simp
qed

text \<open>A chunk size of 0 or below never reaches the end of the input.\<close>

lemma batch_loop_no_result:
  assumes "batch_loop layer c t i r = Some y"
  shows "c \<le> 0 \<longrightarrow> i < int (leading_dim t) \<longrightarrow> (\<exists>e. y = Inl e)"
  apply (rule batch_loop.raw_induct
    [where P = "\<lambda>layer c t i r y. c \<le> 0 \<longrightarrow> i < int (leading_dim t) \<longrightarrow> (\<exists>e. y = Inl e)",
     OF _ assms])
  subgoal premises prems for f layer c t i r y
  proof (intro impI)
    assume c: "c \<le> 0" and i: "i < int (leading_dim t)"
    then have i': "i + c < int (leading_dim t)" by simp
    note step = prems(2)
    show "\<exists>e. y = Inl e"
    proof (cases "tf_slice0 t i (i + c)")
      case (Inl e)
      with step i show ?thesis by auto
    next
      case chunk: (Inr chunk)
      show ?thesis
      proof (cases "tf_concat0 r (layer chunk)")
        case (Inl e)
        with step i chunk show ?thesis by auto
      next
        case (Inr result')
        with step i chunk have "f layer c t (i + c) result' = Some y" by simp
        from prems(1) [OF this] c i' show ?thesis by simp
      qed
    qed
  qed
  done


lemma batch_predict_no_result:
  assumes "c \<le> 0" and "0 < leading_dim t"
  shows "batch_predict layer c t \<noteq> Some (Inr r)"
proof
  assume a: "batch_predict layer c t = Some (Inr r)"
  then obtain chunk where "batch_loop layer c t c (layer chunk) = Some (Inr r)"
    by (auto simp: batch_predict_def split: sum.splits)
  from batch_loop_no_result [OF this] assms show False by auto
qed

lemma call_no_result:
  assumes c: "c \<le> 0"
    and u: "tf_reshape_infer inputs
              (py_slice_from (shape inputs)
                 ((if axis < 0 then int (length (shape inputs)) + axis else axis) + 1)) = Inr u"
    and n: "0 < leading_dim u"
  shows "ChunkedEmbeddingLayer_call layer axis (Some c) stop_gradient inputs \<noteq> Some (Inr r)"
proof -
  from c n have "\<not> int (leading_dim u) \<le> c" by simp
  then show ?thesis
    using batch_predict_no_result [OF c n, of layer]
    by (auto simp: ChunkedEmbeddingLayer_call_def Let_def u split: option.splits sum.splits)
qed

text \<open>
  Claim C1 as stated fails twice. A deterministic sub-layer whose output for a row
  depends on the rest of its batch gives \<open>[0, 0]\<close> in chunks of 1 and \<open>[-3, -1]\<close> in one
  evaluation. With \<open>chunk_size = 0\<close> the chunked call of the doubling layer does not
  return the tensor that the single evaluation returns.
\<close>

theorem chunking_differs_from_whole:
  "ChunkedEmbeddingLayer_call batch_total_layer (- 2) (Some 1) False \<lparr>shape = [2, 1], flat = [1, 3]\<rparr>
     = Some (Inr \<lparr>shape = [2, 1], flat = [0, 0]\<rparr>)
   \<and> ChunkedEmbeddingLayer_call batch_total_layer (- 2) None False \<lparr>shape = [2, 1], flat = [1, 3]\<rparr>
     = Some (Inr \<lparr>shape = [2, 1], flat = [- 3, - 1]\<rparr>)
   \<and> ChunkedEmbeddingLayer_call double_layer (- 2) None False \<lparr>shape = [2, 1], flat = [1, 3]\<rparr>
     = Some (Inr \<lparr>shape = [2, 1], flat = [2, 6]\<rparr>)
   \<and> ChunkedEmbeddingLayer_call double_layer (- 2) (Some 0) False \<lparr>shape = [2, 1], flat = [1, 3]\<rparr>
     \<noteq> Some (Inr \<lparr>shape = [2, 1], flat = [2, 6]\<rparr>)"
proof -
  have 1: "ChunkedEmbeddingLayer_call batch_total_layer (- 2) (Some 1) False
             \<lparr>shape = [2, 1], flat = [1, 3]\<rparr> = Some (Inr \<lparr>shape = [2, 1], flat = [0, 0]\<rparr>)"
    by code_simp
  have 2: "ChunkedEmbeddingLayer_call batch_total_layer (- 2) None False
             \<lparr>shape = [2, 1], flat = [1, 3]\<rparr> = Some (Inr \<lparr>shape = [2, 1], flat = [- 3, - 1]\<rparr>)"
    by code_simp
  have 3: "ChunkedEmbeddingLayer_call double_layer (- 2) None False
             \<lparr>shape = [2, 1], flat = [1, 3]\<rparr> = Some (Inr \<lparr>shape = [2, 1], flat = [2, 6]\<rparr>)"
    by code_simp
  have c: "(0::int) \<le> 0" by simp
  have u: "tf_reshape_infer \<lparr>shape = [2, 1], flat = [1, 3::int]\<rparr>
             (py_slice_from (shape \<lparr>shape = [2, 1], flat = [1, 3::int]\<rparr>)
                ((if (- 2::int) < 0
                  then int (length (shape \<lparr>shape = [2, 1], flat = [1, 3::int]\<rparr>)) + - 2
                  else - 2) + 1))
           = Inr \<lparr>shape = [2, 1], flat = [1, 3]\<rparr>"
    by code_simp
  have n: "0 < leading_dim \<lparr>shape = [2, 1], flat = [1, 3::int]\<rparr>"
    by code_simp
  note 4 = call_no_result [OF c u n, of double_layer False "\<lparr>shape = [2, 1], flat = [2, 6]\<rparr>"]
  from 1 2 3 4 show ?thesis by blast
qed

end
